theory Spec2Isabelle
  imports Complex_Main "HOL-Library.Char_ord" "HOL-Library.List_Lexorder" "HOL-Library.AList"
begin

section \<open>Strings as Python sees them\<close>

text \<open>
  A Python \<open>str\<close> is modelled as a \<open>string\<close> whose characters are code points below 256.
  \<open>str.strip()\<close> removes the characters for which \<open>str.isspace\<close> holds; below 256 these
  are U+0009..U+000D, U+001C..U+001F, U+0020, U+0085 and U+00A0.
\<close>

definition is_space :: "char \<Rightarrow> bool" where
  "is_space c =
     (let n = (of_char c :: nat)
      in (9 \<le> n \<and> n \<le> 13) \<or> (28 \<le> n \<and> n \<le> 31) \<or> n = 32 \<or> n = 133 \<or> n = 160)"

definition lstrip :: "string \<Rightarrow> string" where
  "lstrip s = dropWhile is_space s"

definition rstrip :: "string \<Rightarrow> string" where
  "rstrip s = rev (dropWhile is_space (rev s))"

definition strip :: "string \<Rightarrow> string" where
  "strip s = rstrip (lstrip s)"

text \<open>\<open>not text.strip()\<close>: the text is empty or whitespace only.\<close>

definition blank :: "string \<Rightarrow> bool" where
  "blank s = (strip s = [])"

text \<open>\<open>str.lower()\<close> on code points below 256: A..Z and the Latin-1 capitals
  U+00C0..U+00DE (without the multiplication sign U+00D7) move up by 32.\<close>

definition lower_char :: "char \<Rightarrow> char" where
  "lower_char c =
     (let n = (of_char c :: nat)
      in if (65 \<le> n \<and> n \<le> 90) \<or> (192 \<le> n \<and> n \<le> 222 \<and> n \<noteq> 215)
         then char_of (n + 32) else c)"

definition lower :: "string \<Rightarrow> string" where
  "lower s = map lower_char s"

text \<open>\<open>s.lstrip(".")\<close>\<close>

definition lstrip_dots :: "string \<Rightarrow> string" where
  "lstrip_dots s = dropWhile (\<lambda>c. c = CHR ''.'') s"

section \<open>Exceptions\<close>

text \<open>
  Every exception the code raises is a value. \<open>Raised msg\<close> stands for an exception of
  class \<open>Exception\<close> coming out of a library call (file system, document library,
  HTTP client), with its message.
\<close>

datatype exn =
    ZeroDivisionError
  | InputNotFound string
  | NoValidLanguage
  | UnsupportedFormats "string list"
  | UnsupportedFormat string
  | LibreOfficeNotFound
  | ConversionFailed
  | NoFileProduced string
  | Raised string

section \<open>Font-fit estimator\<close>

text \<open>
  Sizes and widths are Python floats; they are modelled as real numbers, so rounding and
  NaN are outside the model. ReportLab's \<open>stringWidth\<close> is an external collaborator and
  is a parameter: \<open>None\<close> stands for a raised exception, which \<open>get_text_width\<close> catches.
\<close>

type_synonym measure_fn = "string \<Rightarrow> string \<Rightarrow> real \<Rightarrow> real option"

definition get_text_width :: "measure_fn \<Rightarrow> string \<Rightarrow> real \<Rightarrow> real" where
  "get_text_width stringWidth text font_size =
     (case stringWidth text ''Helvetica'' font_size of
        Some w \<Rightarrow> w
      | None \<Rightarrow> real (length text) * font_size * 0.6)"

definition conservative_min :: "real \<Rightarrow> real" where
  "conservative_min current_size =
     (if current_size \<ge> 20 then current_size - 2.0
      else if current_size \<ge> 14 then current_size - 1.5
      else current_size - 1.0)"

definition absolute_min :: "real \<Rightarrow> real \<Rightarrow> real" where
  "absolute_min current_size min_size =
     (if current_size \<ge> 24 then 20.0
      else if current_size \<ge> 16 then 13.0
      else max min_size 10.0)"

definition calculate_font_size :: "measure_fn \<Rightarrow> string \<Rightarrow> real \<Rightarrow> real \<Rightarrow> real \<Rightarrow> exn + real" where
  "calculate_font_size stringWidth text max_width current_size min_size =
     (if blank text then Inr current_size
      else
        let current_width = get_text_width stringWidth text current_size
        in if current_width \<le> max_width * 1.1 then Inr current_size
           else
             let final_min = max (conservative_min current_size) (absolute_min current_size min_size)
             in if current_width = 0 then Inl ZeroDivisionError
                else
                  let scale_factor = max_width / current_width;
                      new_size = current_size * scale_factor
                  in Inr (max new_size final_min))"

text \<open>The tiered floor in the words of the specification.\<close>

definition tiered_floor :: "real \<Rightarrow> real \<Rightarrow> real" where
  "tiered_floor start_size min_size =
     (if start_size \<ge> 24 then 20 else if start_size \<ge> 16 then 13 else max min_size 10)"

text \<open>The measurement used in concrete evaluations: ReportLab is unavailable, so the
  fallback estimate of \<open>get_text_width\<close> applies.\<close>

definition no_reportlab :: measure_fn where
  "no_reportlab text font_name font_size = None"

section \<open>Format normalization\<close>

definition ALLOWED_FORMATS :: "string set" where
  "ALLOWED_FORMATS = {''pptx'', ''pdf''}"

text \<open>\<open>fmt.lower().strip().lstrip(".")\<close>\<close>

definition clean_format :: "string \<Rightarrow> string" where
  "clean_format fmt = lstrip_dots (strip (lower fmt))"

text \<open>The \<open>for fmt in formats\<close> loop of \<open>_normalize_formats\<close>, with the list
  \<open>normalized\<close> as accumulator.\<close>

fun normalize_loop :: "string list \<Rightarrow> string list \<Rightarrow> string list" where
  "normalize_loop normalized [] = normalized"
| "normalize_loop normalized (fmt # fmts) =
     (if fmt \<noteq> [] then
        (let cleaned = clean_format fmt
         in if cleaned \<noteq> [] \<and> cleaned \<notin> set normalized
            then normalize_loop (normalized @ [cleaned]) fmts
            else normalize_loop normalized fmts)
      else normalize_loop normalized fmts)"

text \<open>
  \<open>_normalize_formats\<close> (Isabelle names do not start with an underscore). The argument
  is \<open>None\<close> for Python's \<open>None\<close>. \<open>sorted(invalid)\<close> orders strings by code point,
  which is the lexicographic order on \<open>string\<close>.
\<close>

definition normalize_formats :: "string list option \<Rightarrow> exn + string list" where
  "normalize_formats formats =
     (case formats of
        None \<Rightarrow> Inr [''pptx'']
      | Some fmts \<Rightarrow>
          if fmts = [] then Inr [''pptx'']
          else
            let normalized = normalize_loop [] fmts;
                normalized = (if normalized = [] then normalized @ [''pptx''] else normalized);
                invalid = filter (\<lambda>f. f \<notin> ALLOWED_FORMATS) normalized
            in if invalid \<noteq> [] then Inl (UnsupportedFormats (sort (remdups invalid)))
               else Inr normalized)"

text \<open>
  Format normalization in the words of the specification: every requested format is
  lowercased, trimmed and stripped of leading dots, empty results are dropped, duplicates
  are removed keeping the first occurrence, an empty result defaults to \<open>pptx\<close>, and the
  formats outside the allowed set, if any, are reported in a validation error.
\<close>

primrec dedup_first :: "'a list \<Rightarrow> 'a list" where
  "dedup_first [] = []"
| "dedup_first (x # xs) = x # removeAll x (dedup_first xs)"

definition requested_formats :: "string list option \<Rightarrow> string list" where
  "requested_formats formats = (case formats of None \<Rightarrow> [] | Some fmts \<Rightarrow> fmts)"

definition spec_normalized :: "string list option \<Rightarrow> string list" where
  "spec_normalized formats =
     (let cleaned = dedup_first (filter (\<lambda>c. c \<noteq> []) (map clean_format (requested_formats formats)))
      in if cleaned = [] then [''pptx''] else cleaned)"

definition spec_normalize_formats :: "string list option \<Rightarrow> exn + string list" where
  "spec_normalize_formats formats =
     (let offending = filter (\<lambda>f. f \<noteq> ''pptx'' \<and> f \<noteq> ''pdf'') (spec_normalized formats)
      in if offending = [] then Inr (spec_normalized formats)
         else Inl (UnsupportedFormats (sort offending)))"

section \<open>Text translation adapter\<close>

text \<open>
  The remote providers are external collaborators. Each is a function from the request
  to what the code sees inside its \<open>try\<close> block: \<open>Inl e\<close> when the HTTP call, the status
  check or the decoding of the reply raises \<open>e\<close>.
  \<^item> \<open>google_get text target_lang\<close>: \<open>Inr None\<close> when the decoded reply or its first
    element is empty, \<open>Inr (Some items)\<close> with the first component of every segment of
    the reply otherwise (an empty string for a segment whose first component is empty).
  \<^item> \<open>deepl_post text target_lang api_key\<close>: the text of the first translation (the code
    sends the language code in upper case).
  \<^item> \<open>openai_chat text target_lang api_key\<close>: the content of the first choice.
\<close>

record providers =
  google_get :: "string \<Rightarrow> string \<Rightarrow> exn + string list option"
  deepl_post :: "string \<Rightarrow> string \<Rightarrow> string \<Rightarrow> exn + string"
  openai_chat :: "string \<Rightarrow> string \<Rightarrow> string \<Rightarrow> exn + string"
  DEEPL_API_KEY :: "string option"
  OPENAI_API_KEY :: "string option"

text \<open>\<open>not api_key\<close>: the key is \<open>None\<close> or the empty string.\<close>

definition no_key :: "string option \<Rightarrow> bool" where
  "no_key api_key = (case api_key of None \<Rightarrow> True | Some k \<Rightarrow> k = [])"

definition translate_with_google :: "providers \<Rightarrow> string \<Rightarrow> string \<Rightarrow> string" where
  "translate_with_google pr text target_lang =
     (if blank text then text
      else case google_get pr text target_lang of
             Inl e \<Rightarrow> text
           | Inr None \<Rightarrow> text
           | Inr (Some items) \<Rightarrow> concat (filter (\<lambda>item. item \<noteq> []) items))"

definition translate_with_deepl :: "providers \<Rightarrow> string \<Rightarrow> string \<Rightarrow> string option \<Rightarrow> string" where
  "translate_with_deepl pr text target_lang api_key =
     (if blank text \<or> no_key api_key then text
      else case deepl_post pr text target_lang (the api_key) of
             Inl e \<Rightarrow> text
           | Inr translated \<Rightarrow> translated)"

definition translate_with_openai :: "providers \<Rightarrow> string \<Rightarrow> string \<Rightarrow> string option \<Rightarrow> string" where
  "translate_with_openai pr text target_lang api_key =
     (if blank text \<or> no_key api_key then text
      else case openai_chat pr text target_lang (the api_key) of
             Inl e \<Rightarrow> text
           | Inr content \<Rightarrow> strip content)"

definition translate_text :: "providers \<Rightarrow> string \<Rightarrow> string \<Rightarrow> string \<Rightarrow> string option \<Rightarrow> string" where
  "translate_text pr text target_lang service api_key =
     (if lower service = ''deepl'' then translate_with_deepl pr text target_lang api_key
      else if lower service = ''openai'' then translate_with_openai pr text target_lang api_key
      else if lower service = ''google'' then translate_with_google pr text target_lang
      else translate_with_google pr text target_lang)"

text \<open>The automatic loading of the API key from the environment, as both
  \<open>translate_pptx\<close> and \<open>translate_pptx_multi\<close> do it.\<close>

definition auto_load_key :: "providers \<Rightarrow> string \<Rightarrow> string option \<Rightarrow> string option" where
  "auto_load_key pr service api_key =
     (if lower service = ''deepl'' \<and> no_key api_key then DEEPL_API_KEY pr
      else if lower service = ''openai'' \<and> no_key api_key then OPENAI_API_KEY pr
      else api_key)"

text \<open>The call \<open>translate_text(original_text, target_lang, service, api_key)\<close> as the
  walker makes it: every adapter catches the failures of its provider, so the call
  returns normally.\<close>

definition walker_translate ::
  "providers \<Rightarrow> string \<Rightarrow> string \<Rightarrow> string option \<Rightarrow> string \<Rightarrow> exn + string" where
  "walker_translate pr target_lang service api_key original_text =
     Inr (translate_text pr original_text target_lang service api_key)"

section \<open>Document model\<close>

text \<open>
  The presentation is the object model of the document library, reduced to what the
  walker reads and writes. A length is an integer number of EMU (12700 to the point,
  914400 to the inch); \<open>None\<close> is an unset size or width. A table cell is its text frame,
  a list of paragraphs.
\<close>

record run =
  run_text :: string
  run_font_size :: "int option"

type_synonym para = "run list"

record shape =
  shape_text_frame :: "para list option"
  shape_width :: "int option"
  shape_table :: "para list list list option"

type_synonym slide = "shape list"

type_synonym presentation = "slide list"

text \<open>\<open>length.pt\<close>, \<open>length.inches\<close> and \<open>Pt(points)\<close>, which truncates to whole EMU.\<close>

definition pt :: "int \<Rightarrow> real" where
  "pt emu = real_of_int emu / 12700"

definition inches :: "int \<Rightarrow> real" where
  "inches emu = real_of_int emu / 914400"

definition py_int :: "real \<Rightarrow> int" where
  "py_int x = (if x \<ge> 0 then \<lfloor>x\<rfloor> else \<lceil>x\<rceil>)"

definition Pt :: "real \<Rightarrow> int" where
  "Pt points = py_int (points * 12700)"

section \<open>Document walker\<close>

text \<open>
  The first pass over a text container. The state of the loops is the baseline
  \<open>original_size\<close>, the buffer of translated text and the counter \<open>total_translated\<close>.
  \<open>translate\<close> is the call \<open>translate_text(original_text, ...)\<close> as the \<open>try\<close> block
  sees it: \<open>Inl e\<close> when an exception reaches the handler of the run, which then leaves the
  run as it is. \<open>default_size\<close> is 12.0 for the text frame of a shape and 10.0 for a
  table cell.
\<close>

type_synonym pass_state = "real \<times> string \<times> nat"

definition has_size :: "run \<Rightarrow> bool" where
  "has_size r = (case run_font_size r of None \<Rightarrow> False | Some emu \<Rightarrow> emu \<noteq> 0)"

definition translate_run ::
  "(string \<Rightarrow> exn + string) \<Rightarrow> real \<Rightarrow> pass_state \<Rightarrow> run \<Rightarrow> pass_state \<times> run" where
  "translate_run translate default_size st r =
     (case st of (original_size, all_translated_text, total_translated) \<Rightarrow>
        if run_text r \<noteq> [] \<and> \<not> blank (run_text r) then
          (let original_size =
                 (if has_size r \<and> original_size = default_size
                  then pt (the (run_font_size r)) else original_size)
           in case translate (run_text r) of
                Inl e \<Rightarrow> ((original_size, all_translated_text, total_translated), r)
              | Inr translated_text \<Rightarrow>
                  ((original_size, all_translated_text @ translated_text @ '' '',
                    total_translated + 1),
                   r\<lparr>run_text := translated_text\<rparr>))
        else (st, r))"

fun translate_runs ::
  "(string \<Rightarrow> exn + string) \<Rightarrow> real \<Rightarrow> pass_state \<Rightarrow> run list \<Rightarrow> pass_state \<times> run list" where
  "translate_runs translate default_size st [] = (st, [])"
| "translate_runs translate default_size st (r # rs) =
     (case translate_run translate default_size st r of (st1, r1) \<Rightarrow>
        case translate_runs translate default_size st1 rs of (st2, rs1) \<Rightarrow> (st2, r1 # rs1))"

fun translate_paragraphs ::
  "(string \<Rightarrow> exn + string) \<Rightarrow> real \<Rightarrow> pass_state \<Rightarrow> para list
     \<Rightarrow> pass_state \<times> para list" where
  "translate_paragraphs translate default_size st [] = (st, [])"
| "translate_paragraphs translate default_size st (p # ps) =
     (case translate_runs translate default_size st p of (st1, p1) \<Rightarrow>
        case translate_paragraphs translate default_size st1 ps of (st2, ps1) \<Rightarrow> (st2, p1 # ps1))"

text \<open>The first pass of a container starts from the default baseline and an empty buffer.\<close>

definition first_pass ::
  "(string \<Rightarrow> exn + string) \<Rightarrow> real \<Rightarrow> nat \<Rightarrow> para list \<Rightarrow> pass_state \<times> para list" where
  "first_pass translate default_size total_translated paragraphs =
     translate_paragraphs translate default_size (default_size, [], total_translated) paragraphs"

text \<open>The second pass gives every non-blank run of the container the same size.\<close>

definition resize_runs :: "real \<Rightarrow> para list \<Rightarrow> para list" where
  "resize_runs optimal_size paragraphs =
     map (map (\<lambda>r. if \<not> blank (run_text r) then r\<lparr>run_font_size := Some (Pt optimal_size)\<rparr> else r))
       paragraphs"

definition second_pass ::
  "measure_fn \<Rightarrow> string \<Rightarrow> real \<Rightarrow> real \<Rightarrow> real \<Rightarrow> para list \<Rightarrow> exn + para list" where
  "second_pass stringWidth all_text max_width original_size min_size paragraphs =
     (case calculate_font_size stringWidth (strip all_text) max_width original_size min_size of
        Inl e \<Rightarrow> Inl e
      | Inr optimal_size \<Rightarrow>
          if \<bar>optimal_size - original_size\<bar> > 0.5
          then Inr (resize_runs optimal_size paragraphs) else Inr paragraphs)"

text \<open>A text frame: first pass with baseline default 12.0, then the resize when the buffer
  is not blank and the shape has a width (\<open>None\<close> and 0 are falsy). The word-wrap and
  auto-size attributes set afterwards are not part of the model.\<close>

definition walk_text_frame ::
  "(string \<Rightarrow> exn + string) \<Rightarrow> measure_fn \<Rightarrow> int option \<Rightarrow> nat \<Rightarrow> para list
     \<Rightarrow> exn + (nat \<times> para list)" where
  "walk_text_frame translate stringWidth width total_translated paragraphs =
     (case first_pass translate 12.0 total_translated paragraphs of
        ((original_size, all_translated_text, total0), paragraphs1) \<Rightarrow>
          if \<not> blank all_translated_text \<and> width \<noteq> None \<and> width \<noteq> Some 0 then
            (let shape_width = inches (the width) * 72;
                 available_width = shape_width - 20
             in case second_pass stringWidth all_translated_text available_width original_size
                       11.0 paragraphs1 of
                  Inl e \<Rightarrow> Inl e
                | Inr paragraphs2 \<Rightarrow> Inr (total0, paragraphs2))
          else Inr (total0, paragraphs1))"

text \<open>A table cell: baseline default 10.0, fixed width 100, minimum 10.0.\<close>

definition walk_cell ::
  "(string \<Rightarrow> exn + string) \<Rightarrow> measure_fn \<Rightarrow> nat \<Rightarrow> para list
     \<Rightarrow> exn + (nat \<times> para list)" where
  "walk_cell translate stringWidth total_translated paragraphs =
     (case first_pass translate 10.0 total_translated paragraphs of
        ((original_size, all_cell_text, total0), paragraphs1) \<Rightarrow>
          if \<not> blank all_cell_text then
            (case second_pass stringWidth all_cell_text 100 original_size 10.0 paragraphs1 of
               Inl e \<Rightarrow> Inl e
             | Inr paragraphs2 \<Rightarrow> Inr (total0, paragraphs2))
          else Inr (total0, paragraphs1))"

fun walk_cells ::
  "(string \<Rightarrow> exn + string) \<Rightarrow> measure_fn \<Rightarrow> nat \<Rightarrow> para list list
     \<Rightarrow> exn + (nat \<times> para list list)" where
  "walk_cells translate stringWidth total0 [] = Inr (total0, [])"
| "walk_cells translate stringWidth total0 (c # cs) =
     (case walk_cell translate stringWidth total0 c of
        Inl e \<Rightarrow> Inl e
      | Inr (total1, c1) \<Rightarrow>
          (case walk_cells translate stringWidth total1 cs of
             Inl e \<Rightarrow> Inl e
           | Inr (total2, cs1) \<Rightarrow> Inr (total2, c1 # cs1)))"

fun walk_rows ::
  "(string \<Rightarrow> exn + string) \<Rightarrow> measure_fn \<Rightarrow> nat \<Rightarrow> para list list list
     \<Rightarrow> exn + (nat \<times> para list list list)" where
  "walk_rows translate stringWidth total0 [] = Inr (total0, [])"
| "walk_rows translate stringWidth total0 (row # rows) =
     (case walk_cells translate stringWidth total0 row of
        Inl e \<Rightarrow> Inl e
      | Inr (total1, row1) \<Rightarrow>
          (case walk_rows translate stringWidth total1 rows of
             Inl e \<Rightarrow> Inl e
           | Inr (total2, rows1) \<Rightarrow> Inr (total2, row1 # rows1)))"

definition walk_shape ::
  "(string \<Rightarrow> exn + string) \<Rightarrow> measure_fn \<Rightarrow> nat \<Rightarrow> shape \<Rightarrow> exn + (nat \<times> shape)" where
  "walk_shape translate stringWidth total0 sh =
     (case (case shape_text_frame sh of
              None \<Rightarrow> Inr (total0, sh)
            | Some paragraphs \<Rightarrow>
                (case walk_text_frame translate stringWidth (shape_width sh) total0 paragraphs of
                   Inl e \<Rightarrow> Inl e
                 | Inr (total1, paragraphs1) \<Rightarrow>
                     Inr (total1, sh\<lparr>shape_text_frame := Some paragraphs1\<rparr>))) of
        Inl e \<Rightarrow> Inl e
      | Inr (total1, sh1) \<Rightarrow>
          (case shape_table sh1 of
             None \<Rightarrow> Inr (total1, sh1)
           | Some rows \<Rightarrow>
               (case walk_rows translate stringWidth total1 rows of
                  Inl e \<Rightarrow> Inl e
                | Inr (total2, rows1) \<Rightarrow> Inr (total2, sh1\<lparr>shape_table := Some rows1\<rparr>))))"

fun walk_shapes ::
  "(string \<Rightarrow> exn + string) \<Rightarrow> measure_fn \<Rightarrow> nat \<Rightarrow> shape list \<Rightarrow> exn + (nat \<times> shape list)" where
  "walk_shapes translate stringWidth total0 [] = Inr (total0, [])"
| "walk_shapes translate stringWidth total0 (sh # shs) =
     (case walk_shape translate stringWidth total0 sh of
        Inl e \<Rightarrow> Inl e
      | Inr (total1, sh1) \<Rightarrow>
          (case walk_shapes translate stringWidth total1 shs of
             Inl e \<Rightarrow> Inl e
           | Inr (total2, shs1) \<Rightarrow> Inr (total2, sh1 # shs1)))"

fun walk_slides ::
  "(string \<Rightarrow> exn + string) \<Rightarrow> measure_fn \<Rightarrow> nat \<Rightarrow> presentation
     \<Rightarrow> exn + (nat \<times> presentation)" where
  "walk_slides translate stringWidth total0 [] = Inr (total0, [])"
| "walk_slides translate stringWidth total0 (sl # sls) =
     (case walk_shapes translate stringWidth total0 sl of
        Inl e \<Rightarrow> Inl e
      | Inr (total1, sl1) \<Rightarrow>
          (case walk_slides translate stringWidth total1 sls of
             Inl e \<Rightarrow> Inl e
           | Inr (total2, sls1) \<Rightarrow> Inr (total2, sl1 # sls1)))"

text \<open>The baseline in the words of the specification: the size of the first non-blank
  run that has one, the default when there is none.\<close>

definition spec_baseline :: "real \<Rightarrow> para list \<Rightarrow> real" where
  "spec_baseline default_size paragraphs =
     (case filter (\<lambda>r. run_text r \<noteq> [] \<and> \<not> blank (run_text r) \<and> has_size r) (concat paragraphs) of
        [] \<Rightarrow> default_size
      | r # rs \<Rightarrow> pt (the (run_font_size r)))"

section \<open>Environment and file system\<close>

text \<open>
  A \<open>pathlib.Path\<close> is its parent directory, its stem and its suffix; \<open>join\<close> is the
  \<open>/\<close> operator on a relative component.
\<close>

record file_path =
  path_parent :: string
  path_stem :: string
  path_suffix :: string

definition str_path :: "file_path \<Rightarrow> string" where
  "str_path p = path_parent p @ ''/'' @ path_stem p @ path_suffix p"

definition join :: "string \<Rightarrow> string \<Rightarrow> string" where
  "join dir name = dir @ ''/'' @ name"

text \<open>
  The external collaborators of the pipeline:
  \<^item> \<open>which_soffice\<close>: \<open>shutil.which(LIBREOFFICE_PATH)\<close> finds the converter;
  \<^item> \<open>mkdir_error p\<close>: what \<open>mkdir\<close> of \<open>p\<close> raises, \<open>None\<close> when it succeeds;
  \<^item> \<open>load_presentation p\<close>: \<open>Presentation(p)\<close>;
  \<^item> \<open>save_error prs p\<close>: what \<open>prs.save(p)\<close> raises, \<open>None\<close> when the file is written;
  \<^item> \<open>soffice_run arg source\<close>: the return code of the converter process started with
    \<open>--convert-to arg\<close> on \<open>source\<close>, or the exception of \<open>subprocess.run\<close>;
  \<^item> \<open>glob_newest attempt dir pattern\<close>: the most recently modified match of \<open>pattern\<close>
    in \<open>dir\<close> at the given polling attempt, \<open>None\<close> when nothing matches;
  \<^item> \<open>zip_error root\<close>: what writing the archive of \<open>root\<close> raises.
\<close>

record env =
  env_providers :: providers
  env_stringWidth :: measure_fn
  which_soffice :: bool
  mkdir_error :: "string \<Rightarrow> exn option"
  load_presentation :: "string \<Rightarrow> exn + presentation"
  save_error :: "presentation \<Rightarrow> string \<Rightarrow> exn option"
  soffice_run :: "string \<Rightarrow> string \<Rightarrow> exn + int"
  glob_newest :: "nat \<Rightarrow> string \<Rightarrow> string \<Rightarrow> string option"
  zip_error :: "string \<Rightarrow> exn option"

text \<open>
  The mutable state: the two module globals \<open>_libreoffice_checked\<close> and
  \<open>_libreoffice_available\<close>, the directories that exist and the files that exist.
\<close>

record world =
  libreoffice_checked :: bool
  libreoffice_available :: bool
  fs_dirs :: "string list"
  fs_files :: "string list"

definition mkdir :: "string \<Rightarrow> world \<Rightarrow> world" where
  "mkdir p w = (if p \<in> set (fs_dirs w) then w else w\<lparr>fs_dirs := fs_dirs w @ [p]\<rparr>)"

definition write_file :: "string \<Rightarrow> world \<Rightarrow> world" where
  "write_file p w = (if p \<in> set (fs_files w) then w else w\<lparr>fs_files := fs_files w @ [p]\<rparr>)"

text \<open>\<open>str(exc)\<close>. The list in \<open>Unsupported formats\<close> is rendered as Python renders a list
  of strings without quotes or escapes in them.\<close>

definition repr_list :: "string list \<Rightarrow> string" where
  "repr_list xs =
     ''['' @ concat (map (\<lambda>(i, x). (if i = 0 then [] else '', '') @ [CHR 0x27] @ x @ [CHR 0x27])
                      (enumerate 0 xs)) @ '']''"

fun str_exn :: "exn \<Rightarrow> string" where
  "str_exn ZeroDivisionError = ''float division by zero''"
| "str_exn (InputNotFound p) = ''Input file '' @ [CHR 0x27] @ p @ [CHR 0x27] @ '' not found.''"
| "str_exn NoValidLanguage = ''At least one valid target language must be provided.''"
| "str_exn (UnsupportedFormats fs) = ''Unsupported formats: '' @ repr_list fs"
| "str_exn (UnsupportedFormat f) = ''Unsupported format: '' @ f"
| "str_exn LibreOfficeNotFound = ''LibreOffice (soffice) not found.''"
| "str_exn ConversionFailed = ''LibreOffice conversion failed''"
| "str_exn (NoFileProduced f) = ''No '' @ f @ '' file was produced''"
| "str_exn (Raised msg) = msg"

section \<open>Single-language translation\<close>

definition translate_pptx ::
  "env \<Rightarrow> string \<Rightarrow> string \<Rightarrow> string \<Rightarrow> string \<Rightarrow> string option \<Rightarrow> world
     \<Rightarrow> (exn + nat) \<times> world" where
  "translate_pptx ev input_file output_file target_lang service api_key w =
     (if input_file \<notin> set (fs_files w) then (Inr 0, w)
      else case load_presentation ev input_file of
             Inl e \<Rightarrow> (Inr 0, w)
           | Inr prs \<Rightarrow>
               (let api_key = auto_load_key (env_providers ev) service api_key;
                    translate = walker_translate (env_providers ev) target_lang service api_key
                in case walk_slides translate (env_stringWidth ev) 0 prs of
                     Inl e \<Rightarrow> (Inl e, w)
                   | Inr (total_translated, prs1) \<Rightarrow>
                       (case save_error ev prs1 output_file of
                          Some e \<Rightarrow> (Inr 0, w)
                        | None \<Rightarrow> (Inr total_translated, write_file output_file w))))"

section \<open>Format exporter\<close>

definition ensure_libreoffice_available :: "env \<Rightarrow> world \<Rightarrow> exn option \<times> world" where
  "ensure_libreoffice_available ev w =
     (if libreoffice_checked w then
        (if \<not> libreoffice_available w then (Some LibreOfficeNotFound, w) else (None, w))
      else
        (let w1 = w\<lparr>libreoffice_checked := True, libreoffice_available := which_soffice ev\<rparr>
         in if \<not> libreoffice_available w1 then (Some LibreOfficeNotFound, w1) else (None, w1)))"

definition LIBREOFFICE_CONVERT_OPTIONS :: "string \<Rightarrow> (string list \<times> string list) option" where
  "LIBREOFFICE_CONVERT_OPTIONS target_format =
     (if target_format = ''pdf'' then Some ([''pdf:impress_pdf_Export'', ''pdf''], [''.pdf''])
      else None)"

text \<open>The \<open>for convert_arg in filters ... else\<close> loop: the first filter whose process
  returns 0 ends it, and running out of filters raises.\<close>

fun run_filters :: "env \<Rightarrow> string \<Rightarrow> string list \<Rightarrow> exn option" where
  "run_filters ev source [] = Some ConversionFailed"
| "run_filters ev source (convert_arg # filters) =
     (case soffice_run ev convert_arg source of
        Inl e \<Rightarrow> Some e
      | Inr returncode \<Rightarrow> if returncode = 0 then None else run_filters ev source filters)"

text \<open>The polling loop, \<open>remaining\<close> attempts from attempt number \<open>attempt\<close> on.\<close>

fun find_produced :: "env \<Rightarrow> string \<Rightarrow> string \<Rightarrow> nat \<Rightarrow> nat \<Rightarrow> string option" where
  "find_produced ev dir pattern attempt 0 = None"
| "find_produced ev dir pattern attempt (Suc remaining) =
     (case glob_newest ev attempt dir pattern of
        Some p \<Rightarrow> Some p
      | None \<Rightarrow> find_produced ev dir pattern (Suc attempt) remaining)"

definition libreoffice_convert ::
  "env \<Rightarrow> file_path \<Rightarrow> string \<Rightarrow> world \<Rightarrow> (exn + string) \<times> world" where
  "libreoffice_convert ev source_path target_format w =
     (case LIBREOFFICE_CONVERT_OPTIONS target_format of
        None \<Rightarrow> (Inl (UnsupportedFormat target_format), w)
      | Some (filters, extensions) \<Rightarrow>
          (case ensure_libreoffice_available ev w of
             (Some e, w1) \<Rightarrow> (Inl e, w1)
           | (None, w1) \<Rightarrow>
               (case run_filters ev (str_path source_path) filters of
                  Some e \<Rightarrow> (Inl e, w1)
                | None \<Rightarrow>
                    (case find_produced ev (path_parent source_path)
                            (path_stem source_path @ ''*'' @ last extensions) 0 10 of
                       Some p \<Rightarrow> (Inr p, w1)
                     | None \<Rightarrow> (Inl (NoFileProduced target_format), w1)))))"

section \<open>Multi-language orchestrator\<close>

text \<open>A dictionary keeps its keys in insertion order, and an assignment to a key that is
  present replaces the value in place: an association list with \<open>AList.update\<close>.\<close>

record lang_result =
  result_count :: nat
  result_outputs :: "(string \<times> string) list"

record summary =
  summary_input :: string
  summary_output_root :: string
  summary_zip_path :: "string option"
  summary_formats :: "string list"
  summary_translations :: "(string \<times> lang_result) list"
  summary_errors :: "string list"

text \<open>The directory \<open>_ensure_output_root\<close> chooses: the given one when it is not
  empty, \<open>{stem}_translations\<close> beside the input otherwise.\<close>

definition output_root_dir :: "string option \<Rightarrow> file_path \<Rightarrow> string" where
  "output_root_dir output_root input_path =
     (if output_root \<noteq> None \<and> output_root \<noteq> Some []
      then the output_root
      else join (path_parent input_path) (path_stem input_path @ ''_translations''))"

definition ensure_output_root ::
  "env \<Rightarrow> string option \<Rightarrow> file_path \<Rightarrow> world \<Rightarrow> (exn + string) \<times> world" where
  "ensure_output_root ev output_root input_path w =
     (let root_dir = output_root_dir output_root input_path
      in case mkdir_error ev root_dir of
           Some e \<Rightarrow> (Inl e, w)
         | None \<Rightarrow> (Inr root_dir, mkdir root_dir w))"

text \<open>\<open>[lang.strip() for lang in target_langs if lang and lang.strip()]\<close>\<close>

definition valid_languages :: "string list \<Rightarrow> string list" where
  "valid_languages target_langs =
     map strip (filter (\<lambda>lang. lang \<noteq> [] \<and> strip lang \<noteq> []) target_langs)"

text \<open>The path of the translated document of a language.\<close>

definition pptx_path_of :: "file_path \<Rightarrow> string \<Rightarrow> string \<Rightarrow> file_path" where
  "pptx_path_of input_path output_root_path language =
     \<lparr>path_parent = join output_root_path language,
      path_stem = path_stem input_path @ ''_'' @ language,
      path_suffix = ''.pptx''\<rparr>"

type_synonym loop_state = "(string \<times> lang_result) list \<times> string list \<times> world"

text \<open>The body of the \<open>for language in languages\<close> loop with its two handlers.\<close>

definition process_language ::
  "env \<Rightarrow> file_path \<Rightarrow> string \<Rightarrow> string list \<Rightarrow> string \<Rightarrow> string option \<Rightarrow> string
     \<Rightarrow> loop_state \<Rightarrow> loop_state" where
  "process_language ev input_path output_root_path normalized_formats service api_key language st =
     (case st of (translations, errors, w) \<Rightarrow>
        let lang_dir = join output_root_path language
        in case mkdir_error ev lang_dir of
             Some exc \<Rightarrow> (translations, errors @ [language @ '': '' @ str_exn exc], w)
           | None \<Rightarrow>
               (let w1 = mkdir lang_dir w;
                    pptx_path = pptx_path_of input_path output_root_path language
                in case translate_pptx ev (str_path input_path) (str_path pptx_path) language
                          service api_key w1 of
                     (Inl exc, w2) \<Rightarrow> (translations, errors @ [language @ '': '' @ str_exn exc], w2)
                   | (Inr translated, w2) \<Rightarrow>
                       (let outputs = (if ''pptx'' \<in> set normalized_formats
                                       then AList.update ''pptx'' (str_path pptx_path) [] else [])
                        in if ''pdf'' \<in> set normalized_formats \<and> str_path pptx_path \<in> set (fs_files w2)
                           then
                             (case libreoffice_convert ev pptx_path ''pdf'' w2 of
                                (Inr pdf_path, w3) \<Rightarrow>
                                  (AList.update language
                                     \<lparr>result_count = translated,
                                      result_outputs = AList.update ''pdf'' pdf_path outputs\<rparr>
                                     translations,
                                   errors, w3)
                              | (Inl exc, w3) \<Rightarrow>
                                  (AList.update language
                                     \<lparr>result_count = translated, result_outputs = outputs\<rparr>
                                     translations,
                                   errors @ [language @ '' PDF export failed: '' @ str_exn exc], w3))
                           else
                             (AList.update language
                                \<lparr>result_count = translated, result_outputs = outputs\<rparr>
                                translations,
                              errors, w2))))"

fun process_languages ::
  "env \<Rightarrow> file_path \<Rightarrow> string \<Rightarrow> string list \<Rightarrow> string \<Rightarrow> string option \<Rightarrow> string list
     \<Rightarrow> loop_state \<Rightarrow> loop_state" where
  "process_languages ev input_path output_root_path nf service api_key [] st = st"
| "process_languages ev input_path output_root_path nf service api_key (language # languages) st =
     process_languages ev input_path output_root_path nf service api_key languages
       (process_language ev input_path output_root_path nf service api_key language st)"

text \<open>\<open>_bundle_outputs_to_zip\<close> and the handler around it.\<close>

definition bundle_outputs ::
  "env \<Rightarrow> string \<Rightarrow> string list \<Rightarrow> world \<Rightarrow> string option \<times> string list \<times> world" where
  "bundle_outputs ev output_root_path errors w =
     (case zip_error ev output_root_path of
        Some exc \<Rightarrow> (None, errors @ [''ZIP packaging failed: '' @ str_exn exc], w)
      | None \<Rightarrow> (Some (output_root_path @ ''.zip''), errors,
                  write_file (output_root_path @ ''.zip'') w))"

definition translate_pptx_multi ::
  "env \<Rightarrow> file_path \<Rightarrow> string list \<Rightarrow> string \<Rightarrow> string option \<Rightarrow> string list option
     \<Rightarrow> string option \<Rightarrow> bool \<Rightarrow> world \<Rightarrow> (exn + summary) \<times> world" where
  "translate_pptx_multi ev input_path target_langs service api_key formats output_root zip_output w =
     (if str_path input_path \<notin> set (fs_files w) then (Inl (InputNotFound (str_path input_path)), w)
      else
        let languages = valid_languages target_langs
        in if languages = [] then (Inl NoValidLanguage, w)
           else case normalize_formats formats of
                  Inl e \<Rightarrow> (Inl e, w)
                | Inr normalized_formats \<Rightarrow>
                    (case (if ''pdf'' \<in> set normalized_formats
                           then ensure_libreoffice_available ev w else (None, w)) of
                       (Some e, w1) \<Rightarrow> (Inl e, w1)
                     | (None, w1) \<Rightarrow>
                         (let api_key = auto_load_key (env_providers ev) service api_key
                          in case ensure_output_root ev output_root input_path w1 of
                               (Inl e, w2) \<Rightarrow> (Inl e, w2)
                             | (Inr output_root_path, w2) \<Rightarrow>
                                 (case process_languages ev input_path output_root_path
                                         normalized_formats service api_key languages ([], [], w2) of
                                    (translations, errors, w3) \<Rightarrow>
                                      (case (if zip_output \<and> translations \<noteq> []
                                             then bundle_outputs ev output_root_path errors w3
                                             else (None, errors, w3)) of
                                         (zip_path, errors1, w4) \<Rightarrow>
                                           (Inr \<lparr>summary_input = str_path input_path,
                                                 summary_output_root = output_root_path,
                                                 summary_zip_path = zip_path,
                                                 summary_formats = normalized_formats,
                                                 summary_translations = translations,
                                                 summary_errors = errors1\<rparr>,
                                            w4))))))"

section \<open>Reading the outcome of a language\<close>

text \<open>
  The exception, if any, that reaches the handler of the language loop while a language
  is processed and the input file is in place: the one of \<open>mkdir\<close>, or the one that
  leaves the walker (the failures of loading and saving are caught inside
  \<open>translate_pptx\<close>).
\<close>

definition walker_exception :: "env \<Rightarrow> string \<Rightarrow> string \<Rightarrow> string \<Rightarrow> string option \<Rightarrow> exn option" where
  "walker_exception ev input_file target_lang service api_key =
     (case load_presentation ev input_file of
        Inl e \<Rightarrow> None
      | Inr prs \<Rightarrow>
          (case walk_slides
                  (walker_translate (env_providers ev) target_lang service
                     (auto_load_key (env_providers ev) service api_key))
                  (env_stringWidth ev) 0 prs of
             Inl e \<Rightarrow> Some e
           | Inr walked \<Rightarrow> None))"

definition language_exception ::
  "env \<Rightarrow> file_path \<Rightarrow> string \<Rightarrow> string \<Rightarrow> string option \<Rightarrow> string \<Rightarrow> exn option" where
  "language_exception ev input_path output_root_path service api_key language =
     (case mkdir_error ev (join output_root_path language) of
        Some e \<Rightarrow> Some e
      | None \<Rightarrow> walker_exception ev (str_path input_path) language service api_key)"

text \<open>
  The converter is unavailable to the process when the availability check, which is made
  once and then cached in the globals, has found or finds no binary.
\<close>

definition converter_unavailable :: "env \<Rightarrow> world \<Rightarrow> bool" where
  "converter_unavailable ev w =
     (if libreoffice_checked w then \<not> libreoffice_available w else \<not> which_soffice ev)"

section \<open>Reading the result of the first pass\<close>

text \<open>A run is counted when it is not blank and its translation call returns; the text
  it then carries is the returned one, and its own text otherwise.\<close>

definition counted :: "(string \<Rightarrow> exn + string) \<Rightarrow> run \<Rightarrow> bool" where
  "counted translate r =
     (run_text r \<noteq> [] \<and> \<not> blank (run_text r) \<and> \<not> isl (translate (run_text r)))"

definition text_after :: "(string \<Rightarrow> exn + string) \<Rightarrow> run \<Rightarrow> string" where
  "text_after translate r =
     (if counted translate r then projr (translate (run_text r)) else run_text r)"

section \<open>Concrete inputs\<close>

text \<open>Runs of 12pt, 18pt, 10pt and 14pt (152400, 228600, 127000 and 177800 EMU) and a
  run without a size.\<close>

definition run_A12 :: run where
  "run_A12 = \<lparr>run_text = ''A'', run_font_size = Some 152400\<rparr>"

definition run_B18 :: run where
  "run_B18 = \<lparr>run_text = ''B'', run_font_size = Some 228600\<rparr>"

definition run_A10 :: run where
  "run_A10 = \<lparr>run_text = ''A'', run_font_size = Some 127000\<rparr>"

definition run_B14 :: run where
  "run_B14 = \<lparr>run_text = ''B'', run_font_size = Some 177800\<rparr>"

definition run_Hello :: run where
  "run_Hello = \<lparr>run_text = ''Hello'', run_font_size = None\<rparr>"

text \<open>Providers whose every call fails, and a translation call that raises.\<close>

definition failing_providers :: providers where
  "failing_providers =
     \<lparr>google_get = (\<lambda>text target_lang. Inl (Raised ''timeout'')),
      deepl_post = (\<lambda>text target_lang api_key. Inl (Raised ''timeout'')),
      openai_chat = (\<lambda>text target_lang api_key. Inl (Raised ''timeout'')),
      DEEPL_API_KEY = None,
      OPENAI_API_KEY = None\<rparr>"

definition raising_translate :: "string \<Rightarrow> exn + string" where
  "raising_translate original_text = Inl (Raised ''boom'')"

text \<open>
  A request: the input \<open>in/deck.pptx\<close> exists, nothing was checked yet, the directory
  of the language \<open>es\<close> cannot be created, the document cannot be loaded and there is no
  converter.
\<close>

definition input_deck :: file_path where
  "input_deck = \<lparr>path_parent = ''in'', path_stem = ''deck'', path_suffix = ''.pptx''\<rparr>"

definition world0 :: world where
  "world0 = \<lparr>libreoffice_checked = False, libreoffice_available = False,
             fs_dirs = [''in''], fs_files = [''in/deck.pptx'']\<rparr>"

definition test_env :: env where
  "test_env =
     \<lparr>env_providers = failing_providers,
      env_stringWidth = no_reportlab,
      which_soffice = False,
      mkdir_error = (\<lambda>p. if p = ''in/deck_translations/es''
                          then Some (Raised ''Permission denied'') else None),
      load_presentation = (\<lambda>p. Inl (Raised ''not a presentation'')),
      save_error = (\<lambda>prs p. None),
      soffice_run = (\<lambda>convert_arg source. Inr 1),
      glob_newest = (\<lambda>attempt dir pattern. None),
      zip_error = (\<lambda>root_dir. None)\<rparr>"

text \<open>The same request where every directory can be created.\<close>

definition ok_env :: env where
  "ok_env = test_env\<lparr>mkdir_error := (\<lambda>p. None)\<rparr>"

section \<open>Properties of the font-fit estimator\<close>

lemma tiered_floor_absolute_min: "tiered_floor cs ms = absolute_min cs ms"
  by (simp add: tiered_floor_def absolute_min_def)

lemma calculate_font_size_resize:
  assumes "\<not> blank text"
    and "get_text_width sw text cs > mw * 1.1"
    and "get_text_width sw text cs \<noteq> 0"
  shows "calculate_font_size sw text mw cs ms =
           Inr (max (cs * (mw / get_text_width sw text cs))
                    (max (conservative_min cs) (absolute_min cs ms)))"
  using assms by (simp add: calculate_font_size_def Let_def)

lemma calculate_font_size_keep:
  assumes "blank text \<or> get_text_width sw text cs \<le> mw * 1.1"
  shows "calculate_font_size sw text mw cs ms = Inr cs"
  using assms by (auto simp add: calculate_font_size_def Let_def)

lemma not_blank_Hi: "\<not> blank ''Hi''"
  by (simp add: blank_def strip_def lstrip_def rstrip_def is_space_def)

lemma not_blank_Hello_world: "\<not> blank ''Hello world''"
  by (simp add: blank_def strip_def lstrip_def rstrip_def is_space_def)

lemma not_blank_a: "\<not> blank ''a''"
  by (simp add: blank_def strip_def lstrip_def rstrip_def is_space_def)

text \<open>
  Claim C3, as stated, asks that the returned size is never below the tiered floor for
  every input. The estimator returns \<open>current_size\<close> untouched when the text is blank or
  fits within 110% of the width, so an 8pt text that fits stays at 8pt although the floor
  for its band (with \<open>min_size = 11\<close>) is 11pt.
\<close>

theorem calculate_font_size_floor_counterexample:
  "calculate_font_size no_reportlab ''Hi'' 100 8 11 = Inr 8 \<and> \<not> tiered_floor 8 11 \<le> (8::real)"
  by (simp add: calculate_font_size_def not_blank_Hi get_text_width_def no_reportlab_def
      tiered_floor_def)

text \<open>
  Claim C3 (amended): for every non-blank text whose measured width exceeds 110% of
  \<open>max_width\<close> and is not zero, the estimator returns a size, and that size is at least
  the tiered floor of the band of \<open>current_size\<close>: 20 from 24pt on, 13 from 16pt on,
  \<open>max min_size 10\<close> below.
\<close>

theorem calculate_font_size_floor:
  assumes "\<not> blank text"
    and "get_text_width sw text cs > mw * 1.1"
    and "get_text_width sw text cs \<noteq> 0"
  shows "\<exists>r. calculate_font_size sw text mw cs ms = Inr r \<and> tiered_floor cs ms \<le> r"
  using calculate_font_size_resize [OF assms, of ms]
  by (simp add: tiered_floor_absolute_min)

theorem calculate_font_size_floor_witness:
  "\<not> blank ''Hello world''
   \<and> get_text_width no_reportlab ''Hello world'' 30 > 50 * 1.1
   \<and> get_text_width no_reportlab ''Hello world'' 30 \<noteq> 0
   \<and> (\<exists>r. calculate_font_size no_reportlab ''Hello world'' 50 30 9 = Inr r
          \<and> tiered_floor 30 9 \<le> r)"
proof -
  have b: "get_text_width no_reportlab ''Hello world'' 30 > 50 * 1.1"
    by (simp add: get_text_width_def no_reportlab_def)
  have c: "get_text_width no_reportlab ''Hello world'' 30 \<noteq> 0"
    by (simp add: get_text_width_def no_reportlab_def)
  from calculate_font_size_floor [OF not_blank_Hello_world b c, of 9] not_blank_Hello_world b c
  show ?thesis by blast
qed

text \<open>
  Claim C4: for every non-blank text whose measured width is at most 110% of
  \<open>max_width\<close>, the estimator returns exactly the input \<open>current_size\<close>.
\<close>

theorem calculate_font_size_fits:
  assumes "\<not> blank text"
    and "get_text_width sw text cs \<le> mw * 1.1"
  shows "calculate_font_size sw text mw cs ms = Inr cs"
  using assms by (simp add: calculate_font_size_def Let_def)

theorem calculate_font_size_fits_witness:
  "\<not> blank ''Hi'' \<and> get_text_width no_reportlab ''Hi'' 12 \<le> 100 * 1.1
   \<and> calculate_font_size no_reportlab ''Hi'' 100 12 11 = Inr 12"
proof -
  have b: "get_text_width no_reportlab ''Hi'' 12 \<le> 100 * 1.1"
    by (simp add: get_text_width_def no_reportlab_def)
  from calculate_font_size_fits [OF not_blank_Hi b, of 11] not_blank_Hi b
  show ?thesis by blast
qed

text \<open>
  Claim C9, as stated, promises a returned size for every non-blank text that overflows
  and every \<open>current_size\<close> below 10. At \<open>current_size = 0\<close> the measured width is 0,
  which exceeds 1.1 times a negative \<open>max_width\<close>, and the scale factor divides by zero:
  the estimator raises instead of returning.
\<close>

theorem calculate_font_size_enlarge_counterexample:
  "\<not> blank ''a'' \<and> get_text_width no_reportlab ''a'' 0 > (- 1) * 1.1 \<and> (0::real) < 10.0
   \<and> calculate_font_size no_reportlab ''a'' (- 1) 0 9 = Inl ZeroDivisionError"
  by (simp add: calculate_font_size_def not_blank_a get_text_width_def no_reportlab_def)

text \<open>
  Claim C9 (amended): for every non-blank text whose measured width exceeds 1.1 times
  \<open>max_width\<close> and is not zero, and every \<open>current_size\<close> strictly below 10, the estimator
  returns a size of at least 10, strictly greater than \<open>current_size\<close>: it enlarges.
\<close>

theorem calculate_font_size_enlarge:
  assumes "\<not> blank text"
    and "get_text_width sw text cs > mw * 1.1"
    and "get_text_width sw text cs \<noteq> 0"
    and "cs < 10.0"
  shows "\<exists>r. calculate_font_size sw text mw cs ms = Inr r \<and> 10.0 \<le> r \<and> cs < r"
proof -
  have "absolute_min cs ms \<ge> 10" using assms(4) by (simp add: absolute_min_def)
  then show ?thesis
    using calculate_font_size_resize [OF assms(1-3), of ms] assms(4) by auto
qed

theorem calculate_font_size_enlarge_witness:
  "\<not> blank ''Hello world''
   \<and> get_text_width no_reportlab ''Hello world'' 8 > 40 * 1.1
   \<and> get_text_width no_reportlab ''Hello world'' 8 \<noteq> 0
   \<and> (8::real) < 10.0
   \<and> (\<exists>r. calculate_font_size no_reportlab ''Hello world'' 40 8 9 = Inr r
          \<and> 10.0 \<le> r \<and> 8 < r)"
proof -
  have b: "get_text_width no_reportlab ''Hello world'' 8 > 40 * 1.1"
    by (simp add: get_text_width_def no_reportlab_def)
  have c: "get_text_width no_reportlab ''Hello world'' 8 \<noteq> 0"
    by (simp add: get_text_width_def no_reportlab_def)
  have d: "(8::real) < 10.0" by simp
  from calculate_font_size_enlarge [OF not_blank_Hello_world b c d, of 9]
    not_blank_Hello_world b c d
  show ?thesis by blast
qed

section \<open>Properties of format normalization\<close>

lemma filter_removeAll: "filter P (removeAll x xs) = filter (\<lambda>y. P y \<and> y \<noteq> x) xs"
  by (induction xs) auto

lemma clean_format_Nil: "clean_format [] = []"
  by (simp add: clean_format_def lstrip_dots_def strip_def lstrip_def rstrip_def lower_def)

lemma normalize_loop_dedup_first:
  "normalize_loop acc fmts =
     acc @ filter (\<lambda>c. c \<notin> set acc)
             (dedup_first (filter (\<lambda>c. c \<noteq> []) (map clean_format fmts)))"
proof (induction fmts arbitrary: acc)
  case Nil
  then show ?case by simp
next
  case (Cons fmt fmts)
  show ?case
    using clean_format_Nil
    by (auto simp add: Cons.IH Let_def filter_removeAll intro!: filter_cong)
qed

lemma distinct_dedup_first: "distinct (dedup_first xs)"
  by (induction xs) (auto simp: distinct_removeAll)

lemma set_dedup_first: "set (dedup_first xs) = set xs"
  by (induction xs) auto

lemma distinct_spec_normalized: "distinct (spec_normalized formats)"
  by (simp add: spec_normalized_def Let_def distinct_dedup_first)

lemma normalize_formats_refines: "normalize_formats formats = spec_normalize_formats formats"
proof (cases formats)
  case None
  then show ?thesis
    by (simp add: normalize_formats_def spec_normalize_formats_def spec_normalized_def
        requested_formats_def)
next
  case (Some fmts)
  show ?thesis
  proof (cases "fmts = []")
    case True
    then show ?thesis
      using Some
      by (simp add: normalize_formats_def spec_normalize_formats_def spec_normalized_def
          requested_formats_def)
  next
    case False
    have l: "normalize_loop [] fmts = dedup_first (filter (\<lambda>c. c \<noteq> []) (map clean_format fmts))"
      by (simp add: normalize_loop_dedup_first)
    have n: "(if normalize_loop [] fmts = [] then normalize_loop [] fmts @ [''pptx'']
              else normalize_loop [] fmts) = spec_normalized (Some fmts)"
      by (simp add: l spec_normalized_def requested_formats_def Let_def)
    have r: "remdups (filter P (spec_normalized (Some fmts))) = filter P (spec_normalized (Some fmts))"
      for P
      using distinct_spec_normalized [of "Some fmts"] by (simp add: distinct_remdups_id)
    have a: "(\<lambda>f. f \<notin> ALLOWED_FORMATS) = (\<lambda>f. f \<noteq> ''pptx'' \<and> f \<noteq> ''pdf'')"
      by (auto simp: ALLOWED_FORMATS_def)
    show ?thesis
      using Some False unfolding normalize_formats_def spec_normalize_formats_def
      by (simp add: n Let_def r a del: normalize_loop.simps)
  qed
qed

text \<open>
  Claim C6: format normalization lowercases, trims, strips leading dots, removes
  duplicates keeping the first occurrence, defaults an empty request to \<open>pptx\<close> and raises
  a validation error naming the offending formats when a normalized format is outside
  pptx and pdf: the loop of the code computes what the specification describes, and the
  request \<open>.PDF, pptx, PPTX\<close> normalizes to \<open>pdf, pptx\<close>.
\<close>

theorem normalize_formats_spec:
  "normalize_formats formats = spec_normalize_formats formats
   \<and> normalize_formats None = Inr [''pptx'']
   \<and> normalize_formats (Some []) = Inr [''pptx'']
   \<and> normalize_formats (Some [''.PDF'', ''pptx'', ''PPTX'']) = Inr [''pdf'', ''pptx'']"
proof -
  have e: "normalize_formats (Some [''.PDF'', ''pptx'', ''PPTX'']) = Inr [''pdf'', ''pptx'']"
    by code_simp
  have n: "normalize_formats None = Inr [''pptx'']"
    by (simp add: normalize_formats_def)
  have m: "normalize_formats (Some []) = Inr [''pptx'']"
    by (simp add: normalize_formats_def)
  from normalize_formats_refines [of formats] e n m show ?thesis by blast
qed

theorem normalize_formats_spec_witness:
  "normalize_formats (Some [''xls'', ''.PDF'', '' Doc '', ''xls''])
     = Inl (UnsupportedFormats [''doc'', ''xls''])"
proof -
  have "normalize_formats (Some [''xls'', ''.PDF'', '' Doc '', ''xls''])
          = spec_normalize_formats (Some [''xls'', ''.PDF'', '' Doc '', ''xls''])"
    using normalize_formats_spec [of "Some [''xls'', ''.PDF'', '' Doc '', ''xls'']"] by blast
  also have "\<dots> = Inl (UnsupportedFormats [''doc'', ''xls''])"
    by code_simp
  finally show ?thesis .
qed

section \<open>Properties of the document walker\<close>

lemma not_blank_A: "\<not> blank ''A''"
  by (simp add: blank_def strip_def lstrip_def rstrip_def is_space_def)

lemma not_blank_B: "\<not> blank ''B''"
  by (simp add: blank_def strip_def lstrip_def rstrip_def is_space_def)

lemma not_blank_Hello: "\<not> blank ''Hello''"
  by (simp add: blank_def strip_def lstrip_def rstrip_def is_space_def)

lemma lower_google: "lower ''google'' = ''google''"
  by code_simp

lemma translate_run_count:
  "snd (snd (fst (translate_run tr d (o1, a, n) r))) = n + (if counted tr r then 1 else 0)"
  by (auto simp: translate_run_def counted_def Let_def split: sum.splits)

lemma translate_run_text: "run_text (snd (translate_run tr d st r)) = text_after tr r"
  by (cases st) (auto simp: translate_run_def counted_def text_after_def Let_def split: sum.splits)

lemma translate_runs_count:
  "snd (snd (fst (translate_runs tr d st rs))) = snd (snd st) + length (filter (counted tr) rs)"
proof (induction rs arbitrary: st)
  case Nil
  then show ?case by simp
next
  case (Cons r rs)
  obtain o1 a n where st: "st = (o1, a, n)" by (cases st) auto
  obtain st1 r1 where s1: "translate_run tr d st r = (st1, r1)"
    by (cases "translate_run tr d st r") auto
  have c: "snd (snd st1) = n + (if counted tr r then 1 else 0)"
    using translate_run_count [of tr d o1 a n r] s1 st by simp
  show ?case using Cons.IH [of st1] s1 c st by (auto split: prod.splits)
qed

lemma translate_runs_text:
  "map run_text (snd (translate_runs tr d st rs)) = map (text_after tr) rs"
proof (induction rs arbitrary: st)
  case Nil
  then show ?case by simp
next
  case (Cons r rs)
  obtain st1 r1 where s1: "translate_run tr d st r = (st1, r1)"
    by (cases "translate_run tr d st r") auto
  have "run_text r1 = text_after tr r" using translate_run_text [of tr d st r] s1 by simp
  then show ?case using Cons.IH [of st1] s1 by (auto split: prod.splits)
qed

lemma translate_paragraphs_count:
  "snd (snd (fst (translate_paragraphs tr d st ps)))
     = snd (snd st) + length (filter (counted tr) (concat ps))"
proof (induction ps arbitrary: st)
  case Nil
  then show ?case by simp
next
  case (Cons p ps)
  obtain st1 p1 where s1: "translate_runs tr d st p = (st1, p1)"
    by (cases "translate_runs tr d st p") auto
  have c: "snd (snd st1) = snd (snd st) + length (filter (counted tr) p)"
    using translate_runs_count [of tr d st p] s1 by simp
  show ?case using Cons.IH [of st1] s1 c by (auto split: prod.splits)
qed

lemma translate_paragraphs_text:
  "map (map run_text) (snd (translate_paragraphs tr d st ps)) = map (map (text_after tr)) ps"
proof (induction ps arbitrary: st)
  case Nil
  then show ?case by simp
next
  case (Cons p ps)
  obtain st1 p1 where s1: "translate_runs tr d st p = (st1, p1)"
    by (cases "translate_runs tr d st p") auto
  have "map run_text p1 = map (text_after tr) p" using translate_runs_text [of tr d st p] s1 by simp
  then show ?case using Cons.IH [of st1] s1 by (auto split: prod.splits)
qed

lemma wt_failing: "\<not> blank t \<Longrightarrow> walker_translate failing_providers ''es'' ''google'' None t = Inr t"
  by (simp add: walker_translate_def translate_text_def lower_google translate_with_google_def failing_providers_def)

text \<open>
  Claim C1 asks for the baseline to be the size of the first non-blank run that has a
  size. The code recognises "no size captured yet" by comparing the baseline with the
  default, so a first run of exactly the default size is overwritten by the next sized
  run: in a text frame with a 12pt run followed by an 18pt run the baseline becomes 18,
  in a table cell with a 10pt run followed by a 14pt run it becomes 14, where the
  specification gives 12 and 10.
\<close>

theorem first_pass_baseline_sentinel:
  "fst (fst (first_pass (walker_translate failing_providers ''es'' ''google'' None) 12.0 0 [[run_A12, run_B18]])) = 18.0
   \<and> spec_baseline 12.0 [[run_A12, run_B18]] = 12.0
   \<and> fst (fst (first_pass (walker_translate failing_providers ''es'' ''google'' None) 10.0 0 [[run_A10, run_B14]])) = 14.0
   \<and> spec_baseline 10.0 [[run_A10, run_B14]] = 10.0"
  by (simp add: first_pass_def translate_run_def run_A12_def run_B18_def run_A10_def run_B14_def
      not_blank_A not_blank_B has_size_def pt_def spec_baseline_def wt_failing)

text \<open>
  Claim C2, as stated, includes the provider failures that the adapter recovers from.
  Such a run keeps its text, but the adapter returns normally, so the walker counts it:
  one run \<open>Hello\<close> with a failing provider gives a count of 1.
\<close>

theorem first_pass_recovered_counterexample:
  "google_get failing_providers ''Hello'' ''es'' = Inl (Raised ''timeout'')
   \<and> first_pass (walker_translate failing_providers ''es'' ''google'' None) 12.0 0 [[run_Hello]]
       = ((12.0, ''Hello '', 1), [[run_Hello]])"
  by (simp add: first_pass_def translate_run_def run_Hello_def not_blank_Hello has_size_def wt_failing)
     (simp add: failing_providers_def)

text \<open>
  Claim C2 (amended): the count after the first pass grows by the number of non-blank
  runs whose translation call returned, and every run carries the returned text or, when
  the call raised into the handler of the run, its original text; so a run whose
  translation raises keeps its text and is not counted. A provider call failure that the
  adapter recovers from leaves the text of the run as it was, and the run is counted.
\<close>

theorem first_pass_failed_runs:
  "snd (snd (fst (first_pass translate d n ps))) = n + length (filter (counted translate) (concat ps))
   \<and> map (map run_text) (snd (first_pass translate d n ps)) = map (map (text_after translate)) ps
   \<and> (isl (translate (run_text r)) \<longrightarrow> \<not> counted translate r \<and> text_after translate r = run_text r)
   \<and> (run_text r \<noteq> [] \<and> \<not> blank (run_text r) \<and> isl (google_get pr (run_text r) lang) \<longrightarrow>
        counted (walker_translate pr lang ''google'' key) r
        \<and> text_after (walker_translate pr lang ''google'' key) r = run_text r)"
proof -
  have a: "snd (snd (fst (first_pass translate d n ps))) = n + length (filter (counted translate) (concat ps))"
    by (simp add: first_pass_def translate_paragraphs_count)
  have b: "map (map run_text) (snd (first_pass translate d n ps)) = map (map (text_after translate)) ps"
    by (simp add: first_pass_def translate_paragraphs_text)
  have c: "isl (translate (run_text r)) \<longrightarrow> \<not> counted translate r \<and> text_after translate r = run_text r"
    by (simp add: counted_def text_after_def)
  have d: "run_text r \<noteq> [] \<and> \<not> blank (run_text r) \<and> isl (google_get pr (run_text r) lang) \<longrightarrow>
        counted (walker_translate pr lang ''google'' key) r
        \<and> text_after (walker_translate pr lang ''google'' key) r = run_text r"
    by (auto simp: counted_def text_after_def walker_translate_def translate_text_def lower_google
        translate_with_google_def isl_def)
  from a b c d show ?thesis by blast
qed

theorem first_pass_failed_runs_witness:
  "snd (snd (fst (first_pass raising_translate 12.0 5 [[run_Hello]]))) = 5
   \<and> map (map run_text) (snd (first_pass raising_translate 12.0 5 [[run_Hello]])) = [[''Hello'']]
   \<and> isl (raising_translate (run_text run_Hello))
   \<and> run_text run_Hello \<noteq> [] \<and> \<not> blank (run_text run_Hello)
   \<and> isl (google_get failing_providers (run_text run_Hello) ''es'')
   \<and> counted (walker_translate failing_providers ''es'' ''google'' None) run_Hello
   \<and> text_after (walker_translate failing_providers ''es'' ''google'' None) run_Hello = ''Hello''"
proof -
  have i: "isl (raising_translate (run_text run_Hello))" by (simp add: raising_translate_def)
  have h: "run_text run_Hello \<noteq> [] \<and> \<not> blank (run_text run_Hello)"
    by (simp add: run_Hello_def not_blank_Hello)
  have g: "isl (google_get failing_providers (run_text run_Hello) ''es'')"
    by (simp add: failing_providers_def)
  have t: "run_text run_Hello = ''Hello''" by (simp add: run_Hello_def)
  from first_pass_failed_runs [of raising_translate "12.0" 5 "[[run_Hello]]" run_Hello
      failing_providers "''es''" None] i h g t
  show ?thesis by simp
qed

section \<open>Properties of the file system and the exporter\<close>


lemma fs_files_mkdir: "fs_files (mkdir p w) = fs_files w"
  by (simp add: mkdir_def)

lemma fs_files_write_file: "set (fs_files (write_file p w)) = insert p (set (fs_files w))"
  by (auto simp add: write_file_def)

lemma fs_dirs_write_file: "fs_dirs (write_file p w) = fs_dirs w"
  by (simp add: write_file_def)

lemma fs_files_ensure: "fs_files (snd (ensure_libreoffice_available ev w)) = fs_files w"
  by (simp add: ensure_libreoffice_available_def Let_def)

lemma fs_files_convert: "fs_files (snd (libreoffice_convert ev p f w)) = fs_files w"
proof -
  obtain r w1 where e: "ensure_libreoffice_available ev w = (r, w1)"
    by (cases "ensure_libreoffice_available ev w") auto
  have "fs_files w1 = fs_files w" using fs_files_ensure [of ev w] e by simp
  then show ?thesis
    using e by (auto simp add: libreoffice_convert_def split: option.splits prod.splits)
qed

lemma translate_pptx_cases:
  assumes "input_file \<in> set (fs_files w)"
  shows "(case walker_exception ev input_file lang service key of
            Some e \<Rightarrow> translate_pptx ev input_file out lang service key w = (Inl e, w)
          | None \<Rightarrow> (\<exists>n. translate_pptx ev input_file out lang service key w = (Inr n, w)
                         \<or> translate_pptx ev input_file out lang service key w = (Inr n, write_file out w)))"
  using assms
  by (auto simp add: translate_pptx_def walker_exception_def Let_def split: sum.splits option.splits prod.splits)


lemma translate_pptx_load_fails:
  assumes "isl (load_presentation ev input_file)"
  shows "translate_pptx ev input_file out lang service key w = (Inr 0, w)"
  using assms by (auto simp add: translate_pptx_def isl_def)

lemma process_language_raises:
  assumes inp: "str_path ip \<in> set (fs_files w)"
    and ex: "language_exception ev ip root_dir service key l = Some e"
  shows "\<exists>w'. process_language ev ip root_dir nf service key l (tr, er, w)
               = (tr, er @ [l @ '': '' @ str_exn e], w')
             \<and> str_path ip \<in> set (fs_files w') \<and> set (fs_files w) \<subseteq> set (fs_files w')"
proof (cases "mkdir_error ev (join root_dir l)")
  case (Some e')
  then have "e' = e" using ex by (simp add: language_exception_def)
  then show ?thesis using Some inp by (simp add: process_language_def)
next
  case None
  then have we: "walker_exception ev (str_path ip) l service key = Some e"
    using ex by (simp add: language_exception_def)
  have inp1: "str_path ip \<in> set (fs_files (mkdir (join root_dir l) w))"
    using inp by (simp add: fs_files_mkdir)
  have "translate_pptx ev (str_path ip) (str_path (pptx_path_of ip root_dir l)) l service key
          (mkdir (join root_dir l) w) = (Inl e, mkdir (join root_dir l) w)"
    using translate_pptx_cases [OF inp1, where ev = ev and lang = l and service = service
        and key = key and out = "str_path (pptx_path_of ip root_dir l)"] we by simp
  then show ?thesis
    using None inp1 by (simp add: process_language_def Let_def fs_files_mkdir)
qed

lemma process_language_completes:
  assumes inp: "str_path ip \<in> set (fs_files w)"
    and ex: "language_exception ev ip root_dir service key l = None"
  shows "\<exists>r xs w'. process_language ev ip root_dir nf service key l (tr, er, w)
               = (AList.update l r tr, er @ xs, w')
             \<and> str_path ip \<in> set (fs_files w') \<and> set (fs_files w) \<subseteq> set (fs_files w')
             \<and> (''pptx'' \<in> set nf \<longrightarrow>
                   map_of (result_outputs r) ''pptx'' = Some (str_path (pptx_path_of ip root_dir l)))
             \<and> (isl (load_presentation ev (str_path ip)) \<longrightarrow> result_count r = 0)"
proof -
  let ?w1 = "mkdir (join root_dir l) w"
  let ?pp = "pptx_path_of ip root_dir l"
  let ?outs = "if ''pptx'' \<in> set nf then AList.update ''pptx'' (str_path ?pp) [] else []"
  have mk: "mkdir_error ev (join root_dir l) = None"
    using ex by (simp add: language_exception_def split: option.splits)
  then have we: "walker_exception ev (str_path ip) l service key = None"
    using ex by (simp add: language_exception_def)
  have inp1: "str_path ip \<in> set (fs_files ?w1)"
    using inp by (simp add: fs_files_mkdir)
  obtain n w2 where tp: "translate_pptx ev (str_path ip) (str_path ?pp) l service key ?w1 = (Inr n, w2)"
    and w2: "w2 = ?w1 \<or> w2 = write_file (str_path ?pp) ?w1"
    using translate_pptx_cases [OF inp1, where ev = ev and lang = l and service = service
        and key = key and out = "str_path ?pp"] we by auto
  have f2: "set (fs_files w) \<subseteq> set (fs_files w2)"
    using w2 by (auto simp add: fs_files_mkdir fs_files_write_file)
  have outs: "''pptx'' \<in> set nf \<longrightarrow> map_of ?outs ''pptx'' = Some (str_path ?pp)"
    by simp
  have n0: "isl (load_presentation ev (str_path ip)) \<longrightarrow> n = 0"
    using tp translate_pptx_load_fails [of ev "str_path ip" "str_path ?pp" l service key ?w1]
    by auto
  show ?thesis
  proof (cases "''pdf'' \<in> set nf \<and> str_path ?pp \<in> set (fs_files w2)")
    case False
    then have "process_language ev ip root_dir nf service key l (tr, er, w)
      = (AList.update l \<lparr>result_count = n, result_outputs = ?outs\<rparr> tr, er @ [], w2)"
      using mk tp by (simp add: process_language_def Let_def) blast
    then show ?thesis
      using f2 inp outs n0
      by (intro exI [of _ "\<lparr>result_count = n, result_outputs = ?outs\<rparr>"] exI [of _ "[]"]
          exI [of _ w2]) auto
  next
    case True
    obtain res w3 where cv: "libreoffice_convert ev ?pp ''pdf'' w2 = (res, w3)"
      by (cases "libreoffice_convert ev ?pp ''pdf'' w2") auto
    have f3: "fs_files w3 = fs_files w2" using fs_files_convert [of ev ?pp "''pdf''" w2] cv by simp
    show ?thesis
    proof (cases res)
      case (Inl exc)
      then have "process_language ev ip root_dir nf service key l (tr, er, w)
        = (AList.update l \<lparr>result_count = n, result_outputs = ?outs\<rparr> tr,
           er @ [l @ '' PDF export failed: '' @ str_exn exc], w3)"
        using mk tp True cv by (simp add: process_language_def Let_def)
      then show ?thesis
        using f2 f3 inp outs n0
        by (intro exI [of _ "\<lparr>result_count = n, result_outputs = ?outs\<rparr>"]
            exI [of _ "[l @ '' PDF export failed: '' @ str_exn exc]"] exI [of _ w3]) auto
    next
      case (Inr pdf_path)
      have o2: "''pptx'' \<in> set nf \<longrightarrow>
          map_of (AList.update ''pdf'' pdf_path ?outs) ''pptx'' = Some (str_path ?pp)"
        by (simp add: update_conv')
      from Inr have "process_language ev ip root_dir nf service key l (tr, er, w)
        = (AList.update l \<lparr>result_count = n, result_outputs = AList.update ''pdf'' pdf_path ?outs\<rparr> tr,
           er @ [], w3)"
        using mk tp True cv by (simp add: process_language_def Let_def)
      then show ?thesis
        using f2 f3 inp o2 n0
        by (intro exI [of _ "\<lparr>result_count = n,
              result_outputs = AList.update ''pdf'' pdf_path ?outs\<rparr>"]
            exI [of _ "[]"] exI [of _ w3]) auto
    qed
  qed
qed


lemma map_fst_update:
  "map fst (AList.update k v al) = (if k \<in> fst ` set al then map fst al else map fst al @ [k])"
  by (induction al) auto

lemma process_languages_keys:
  assumes "str_path ip \<in> set (fs_files w)"
  shows "map fst (fst (process_languages ev ip rd nf service key langs (tr, er, w)))
     = map fst tr @ filter (\<lambda>l. l \<notin> fst ` set tr)
         (dedup_first (filter (\<lambda>l. language_exception ev ip rd service key l = None) langs))"
  using assms
proof (induction langs arbitrary: tr er w)
  case Nil
  then show ?case by simp
next
  case (Cons l langs)
  show ?case
  proof (cases "language_exception ev ip rd service key l")
    case (Some e)
    obtain w' where st: "process_language ev ip rd nf service key l (tr, er, w)
               = (tr, er @ [l @ '': '' @ str_exn e], w')"
      and inp: "str_path ip \<in> set (fs_files w')"
      using process_language_raises [OF Cons.prems Some, where nf = nf and tr = tr and er = er] by blast
    show ?thesis using Cons.IH [OF inp, where tr = tr] st Some by simp
  next
    case None
    obtain r xs w' where st: "process_language ev ip rd nf service key l (tr, er, w)
               = (AList.update l r tr, er @ xs, w')"
      and inp: "str_path ip \<in> set (fs_files w')"
      using process_language_completes [OF Cons.prems None, where nf = nf and tr = tr and er = er] by blast
    show ?thesis
      using Cons.IH [OF inp, where tr = "AList.update l r tr"] st None
      by (auto simp add: map_fst_update dom_update filter_removeAll intro!: filter_cong)
  qed
qed

lemma process_languages_errors_mono:
  assumes "str_path ip \<in> set (fs_files w)"
  shows "set er \<subseteq> set (fst (snd (process_languages ev ip rd nf service key langs (tr, er, w))))"
  using assms
proof (induction langs arbitrary: tr er w)
  case Nil
  then show ?case by simp
next
  case (Cons l langs)
  show ?case
  proof (cases "language_exception ev ip rd service key l")
    case (Some e)
    obtain w' where st: "process_language ev ip rd nf service key l (tr, er, w)
               = (tr, er @ [l @ '': '' @ str_exn e], w')"
      and inp: "str_path ip \<in> set (fs_files w')"
      using process_language_raises [OF Cons.prems Some, where nf = nf and tr = tr and er = er] by blast
    show ?thesis using Cons.IH [OF inp, where tr = tr and er = "er @ [l @ '': '' @ str_exn e]"] st by auto
  next
    case None
    obtain r xs w' where st: "process_language ev ip rd nf service key l (tr, er, w)
               = (AList.update l r tr, er @ xs, w')"
      and inp: "str_path ip \<in> set (fs_files w')"
      using process_language_completes [OF Cons.prems None, where nf = nf and tr = tr and er = er] by blast
    show ?thesis using Cons.IH [OF inp, where tr = "AList.update l r tr" and er = "er @ xs"] st by auto
  qed
qed

lemma process_languages_error_recorded:
  assumes "str_path ip \<in> set (fs_files w)"
    and "l \<in> set langs"
    and "language_exception ev ip rd service key l = Some e"
  shows "l @ '': '' @ str_exn e
           \<in> set (fst (snd (process_languages ev ip rd nf service key langs (tr, er, w))))"
  using assms
proof (induction langs arbitrary: tr er w)
  case Nil
  then show ?case by simp
next
  case (Cons x langs)
  obtain tr1 er1 w1 where st: "process_language ev ip rd nf service key x (tr, er, w) = (tr1, er1, w1)"
    by (cases "process_language ev ip rd nf service key x (tr, er, w)") auto
  have inp: "str_path ip \<in> set (fs_files w1)"
  proof (cases "language_exception ev ip rd service key x")
    case None
    then show ?thesis using process_language_completes [OF Cons.prems(1) None, where nf = nf and tr = tr and er = er] st by auto
  next
    case (Some e')
    then show ?thesis using process_language_raises [OF Cons.prems(1) Some, where nf = nf and tr = tr and er = er] st by auto
  qed
  show ?case
  proof (cases "x = l")
    case True
    have "l @ '': '' @ str_exn e \<in> set er1"
      using process_language_raises [OF Cons.prems(1) Cons.prems(3), where nf = nf and tr = tr and er = er] st True by auto
    then show ?thesis
      using process_languages_errors_mono [OF inp, where er = er1 and ev = ev and rd = rd and nf = nf
          and service = service and key = key and langs = langs and tr = tr1] st
      by auto
  next
    case False
    then have "l \<in> set langs" using Cons.prems(2) by simp
    then show ?thesis using Cons.IH [OF inp _ Cons.prems(3), where tr = tr1 and er = er1] st by simp
  qed
qed

lemma process_languages_entry:
  assumes "str_path ip \<in> set (fs_files w)"
    and "language_exception ev ip rd service key l = None"
    and "l \<in> set langs \<or> (\<exists>r. map_of tr l = Some r \<and> (''pptx'' \<in> set nf \<longrightarrow>
            map_of (result_outputs r) ''pptx'' = Some (str_path (pptx_path_of ip rd l)))
            \<and> (isl (load_presentation ev (str_path ip)) \<longrightarrow> result_count r = 0))"
  shows "\<exists>r. map_of (fst (process_languages ev ip rd nf service key langs (tr, er, w))) l = Some r
            \<and> (''pptx'' \<in> set nf \<longrightarrow>
                 map_of (result_outputs r) ''pptx'' = Some (str_path (pptx_path_of ip rd l)))
            \<and> (isl (load_presentation ev (str_path ip)) \<longrightarrow> result_count r = 0)"
  using assms
proof (induction langs arbitrary: tr er w)
  case Nil
  then show ?case by simp
next
  case (Cons x langs)
  let ?P = "\<lambda>t. \<exists>r. map_of t l = Some r \<and> (''pptx'' \<in> set nf \<longrightarrow>
            map_of (result_outputs r) ''pptx'' = Some (str_path (pptx_path_of ip rd l)))
            \<and> (isl (load_presentation ev (str_path ip)) \<longrightarrow> result_count r = 0)"
  obtain tr1 er1 w1 where st: "process_language ev ip rd nf service key x (tr, er, w) = (tr1, er1, w1)"
    by (cases "process_language ev ip rd nf service key x (tr, er, w)") auto
  have step: "str_path ip \<in> set (fs_files w1) \<and> (l \<in> set langs \<or> ?P tr1)"
  proof (cases "language_exception ev ip rd service key x")
    case None
    obtain r xs w' where e: "process_language ev ip rd nf service key x (tr, er, w)
               = (AList.update x r tr, er @ xs, w')"
      and inp: "str_path ip \<in> set (fs_files w')"
      and out: "''pptx'' \<in> set nf \<longrightarrow>
                   map_of (result_outputs r) ''pptx'' = Some (str_path (pptx_path_of ip rd x))"
      and cnt: "isl (load_presentation ev (str_path ip)) \<longrightarrow> result_count r = 0"
      using process_language_completes [OF Cons.prems(1) None, where nf = nf and tr = tr and er = er] by blast
    have t: "tr1 = AList.update x r tr" and w: "w1 = w'" using e st by auto
    show ?thesis
    proof (cases "x = l")
      case True
      then show ?thesis using t w inp out cnt by (simp add: update_conv')
    next
      case False
      then show ?thesis using t w inp Cons.prems(3) by (auto simp add: update_conv')
    qed
  next
    case (Some e')
    have "x \<noteq> l" using Some Cons.prems(2) by auto
    then show ?thesis
      using process_language_raises [OF Cons.prems(1) Some, where nf = nf and tr = tr and er = er] st Cons.prems(3) by auto
  qed
  show ?case using Cons.IH [where w = w1 and tr = tr1 and er = er1] step Cons.prems(2) st by simp
qed

lemma process_language_files:
  assumes "isl (load_presentation ev (str_path ip))"
  shows "fs_files (snd (snd (process_language ev ip rd nf service key l (tr, er, w)))) = fs_files w"
proof -
  let ?w1 = "mkdir (join rd l) w"
  let ?pp = "pptx_path_of ip rd l"
  have tp: "translate_pptx ev (str_path ip) (str_path ?pp) l service key ?w1 = (Inr 0, ?w1)"
    using translate_pptx_load_fails [OF assms] .
  obtain res w3 where cv: "libreoffice_convert ev ?pp ''pdf'' ?w1 = (res, w3)"
    by (cases "libreoffice_convert ev ?pp ''pdf'' ?w1") auto
  have f3: "fs_files w3 = fs_files w"
    using fs_files_convert [of ev ?pp "''pdf''" ?w1] cv by (simp add: fs_files_mkdir)
  show ?thesis
    using tp cv f3
    by (cases res) (auto simp add: process_language_def Let_def fs_files_mkdir split: option.splits)
qed

lemma process_languages_files:
  assumes "isl (load_presentation ev (str_path ip))"
  shows "fs_files (snd (snd (process_languages ev ip rd nf service key langs (tr, er, w))))
           = fs_files w"
proof (induction langs arbitrary: tr er w)
  case Nil
  then show ?case by simp
next
  case (Cons x langs)
  obtain tr1 er1 w1 where st: "process_language ev ip rd nf service key x (tr, er, w) = (tr1, er1, w1)"
    by (cases "process_language ev ip rd nf service key x (tr, er, w)") auto
  have "fs_files w1 = fs_files w"
    using process_language_files [OF assms, of rd nf service key x tr er w] st by simp
  then show ?case using Cons.IH [of tr1 er1 w1] st by simp
qed

lemma fs_files_bundle:
  "set (fs_files (snd (snd (bundle_outputs ev rd er w))))
     \<subseteq> insert (rd @ ''.zip'') (set (fs_files w))"
  by (auto simp add: bundle_outputs_def fs_files_write_file split: option.splits)

lemma ensure_unavailable:
  "fst (ensure_libreoffice_available ev w)
     = (if converter_unavailable ev w then Some LibreOfficeNotFound else None)"
  by (simp add: ensure_libreoffice_available_def converter_unavailable_def Let_def)

lemma ensure_dirs: "fs_dirs (snd (ensure_libreoffice_available ev w)) = fs_dirs w"
  by (simp add: ensure_libreoffice_available_def Let_def)

lemma translate_pptx_multi_returns:
  assumes inp: "str_path ip \<in> set (fs_files w)"
    and langs: "valid_languages tls \<noteq> []"
    and nf: "normalize_formats formats = Inr nf"
    and lo: "''pdf'' \<in> set nf \<longrightarrow> \<not> converter_unavailable ev w"
    and rd: "mkdir_error ev (output_root_dir oroot ip) = None"
  shows "\<exists>sm w' w2. translate_pptx_multi ev ip tls service key formats oroot zip_output w = (Inr sm, w')
     \<and> str_path ip \<in> set (fs_files w2)
     \<and> summary_translations sm
          = fst (process_languages ev ip (output_root_dir oroot ip) nf service
                   (auto_load_key (env_providers ev) service key) (valid_languages tls) ([], [], w2))
     \<and> set (fst (snd (process_languages ev ip (output_root_dir oroot ip) nf service
                   (auto_load_key (env_providers ev) service key) (valid_languages tls) ([], [], w2))))
          \<subseteq> set (summary_errors sm)
     \<and> summary_formats sm = nf
     \<and> fs_files w2 = fs_files w
     \<and> set (fs_files w') \<subseteq> insert (output_root_dir oroot ip @ ''.zip'')
           (set (fs_files (snd (snd (process_languages ev ip (output_root_dir oroot ip) nf service
                   (auto_load_key (env_providers ev) service key) (valid_languages tls)
                   ([], [], w2))))))"
proof -
  let ?rd = "output_root_dir oroot ip"
  let ?key = "auto_load_key (env_providers ev) service key"
  obtain r1 w1 where e1: "(if ''pdf'' \<in> set nf then ensure_libreoffice_available ev w else (None, w)) = (r1, w1)"
    by (cases "(if ''pdf'' \<in> set nf then ensure_libreoffice_available ev w else (None, w))") auto
  have r1: "r1 = None"
    using e1 lo ensure_unavailable [of ev w] by (auto split: if_splits)
  have f1: "fs_files w1 = fs_files w"
    using e1 fs_files_ensure [of ev w] by (auto split: if_splits)
  let ?w2 = "mkdir ?rd w1"
  have inp2: "str_path ip \<in> set (fs_files ?w2)" using inp f1 by (simp add: fs_files_mkdir)
  have f2: "fs_files ?w2 = fs_files w" using f1 by (simp add: fs_files_mkdir)
  obtain tr er w3 where lp: "process_languages ev ip ?rd nf service ?key (valid_languages tls) ([], [], ?w2) = (tr, er, w3)"
    by (cases "process_languages ev ip ?rd nf service ?key (valid_languages tls) ([], [], ?w2)") auto
  obtain z er1 w4 where zp: "(if zip_output \<and> tr \<noteq> [] then bundle_outputs ev ?rd er w3 else (None, er, w3)) = (z, er1, w4)"
    by (cases "(if zip_output \<and> tr \<noteq> [] then bundle_outputs ev ?rd er w3 else (None, er, w3))") auto
  have sub: "set er \<subseteq> set er1"
    using zp by (auto simp add: bundle_outputs_def split: if_splits option.splits)
  have fz: "set (fs_files w4) \<subseteq> insert (?rd @ ''.zip'') (set (fs_files w3))"
    using zp fs_files_bundle [of ev ?rd er w3] by (auto split: if_splits)
  have "translate_pptx_multi ev ip tls service key formats oroot zip_output w
     = (Inr \<lparr>summary_input = str_path ip, summary_output_root = ?rd, summary_zip_path = z,
             summary_formats = nf, summary_translations = tr, summary_errors = er1\<rparr>, w4)"
    using inp langs nf e1 r1 rd lp zp
    by (simp add: translate_pptx_multi_def Let_def ensure_output_root_def)
  then show ?thesis using inp2 lp sub f2 fz by (intro exI [of _ "?w2"] exI conjI) auto
qed

section \<open>Properties of the orchestrator\<close>

lemma normalize_formats_pdf:
  assumes "normalize_formats formats = Inr nf"
    and "''pdf'' \<in> clean_format ` set (requested_formats formats)"
  shows "''pdf'' \<in> set nf"
proof -
  have "spec_normalize_formats formats = Inr nf"
    using assms(1) by (simp add: normalize_formats_refines)
  then have nf: "nf = spec_normalized formats"
    by (simp add: spec_normalize_formats_def Let_def split: if_splits)
  have "''pdf'' \<in> set (dedup_first (filter (\<lambda>c. c \<noteq> [])
           (map clean_format (requested_formats formats))))"
    using assms(2) by (auto simp add: set_dedup_first)
  then show ?thesis
    unfolding nf spec_normalized_def Let_def by (auto split: if_splits)
qed

lemma normalize_None: "normalize_formats None = Inr [''pptx'']"
  by (simp add: normalize_formats_def)

lemma normalize_dot_PDF: "normalize_formats (Some [''.PDF'']) = Inr [''pdf'']"
  by code_simp

lemma clean_dot_PDF: "clean_format ''.PDF'' = ''pdf''"
  by code_simp

lemma strip_es: "strip ''es'' = ''es''"
  by (simp add: strip_def lstrip_def rstrip_def is_space_def)

lemma strip_fr: "strip ''fr'' = ''fr''"
  by (simp add: strip_def lstrip_def rstrip_def is_space_def)

lemma valid_es_fr: "valid_languages [''es'', ''fr''] = [''es'', ''fr'']"
  by (simp add: valid_languages_def strip_es strip_fr)

lemma valid_es_es_fr: "valid_languages [''es'', ''es'', ''fr''] = [''es'', ''es'', ''fr'']"
  by (simp add: valid_languages_def strip_es strip_fr)

lemma root_deck: "output_root_dir None input_deck = ''in/deck_translations''"
  by (simp add: output_root_dir_def input_deck_def join_def)

lemma inp_deck: "str_path input_deck \<in> set (fs_files world0)"
  by (simp add: str_path_def input_deck_def world0_def)

lemma test_env_es:
  "language_exception test_env input_deck ''in/deck_translations'' service key ''es''
     = Some (Raised ''Permission denied'')"
  by (simp add: language_exception_def test_env_def join_def)

lemma test_env_fr:
  "language_exception test_env input_deck ''in/deck_translations'' service key ''fr'' = None"
  by (simp add: language_exception_def test_env_def join_def walker_exception_def)

lemma ok_env_any:
  "language_exception ok_env input_deck rd service key l = None"
  by (simp add: language_exception_def ok_env_def test_env_def walker_exception_def)

lemma pptx_path_fr:
  "str_path (pptx_path_of input_deck ''in/deck_translations'' ''fr'')
     = ''in/deck_translations/fr/deck_fr.pptx''"
  by (simp add: pptx_path_of_def str_path_def join_def input_deck_def)

lemma test_env_run:
  "translate_pptx_multi test_env input_deck [''es'', ''es'', ''fr''] ''google'' None None None False world0
   = (Inr \<lparr>summary_input = ''in/deck.pptx'', summary_output_root = ''in/deck_translations'',
           summary_zip_path = None, summary_formats = [''pptx''],
           summary_translations = [(''fr'', \<lparr>result_count = 0,
              result_outputs = [(''pptx'', ''in/deck_translations/fr/deck_fr.pptx'')]\<rparr>)],
           summary_errors = [''es: Permission denied'', ''es: Permission denied'']\<rparr>,
      \<lparr>libreoffice_checked = False, libreoffice_available = False,
       fs_dirs = [''in'', ''in/deck_translations'', ''in/deck_translations/fr''],
       fs_files = [''in/deck.pptx'']\<rparr>)"
  by (simp add: translate_pptx_multi_def valid_languages_def strip_es strip_fr normalize_None
      ensure_output_root_def output_root_dir_def Let_def process_language_def join_def mkdir_def
      translate_pptx_def pptx_path_of_def str_path_def bundle_outputs_def write_file_def
      auto_load_key_def lower_google no_key_def test_env_def world0_def input_deck_def)


text \<open>
  Claim C5, as stated, promises one entry per distinct language for every request with
  duplicates. The orchestrator does not remove duplicates from the list, it processes
  every occurrence, and a language whose processing raises gets no entry: for
  \<open>es, es, fr\<close> where the directory of \<open>es\<close> cannot be created, the summary has
  the single entry \<open>fr\<close> and two errors for \<open>es\<close>.
\<close>

theorem orchestrator_duplicates_counterexample:
  "fst (translate_pptx_multi test_env input_deck [''es'', ''es'', ''fr''] ''google'' None None None
          False world0)
   = Inr \<lparr>summary_input = ''in/deck.pptx'', summary_output_root = ''in/deck_translations'',
           summary_zip_path = None, summary_formats = [''pptx''],
           summary_translations = [(''fr'', \<lparr>result_count = 0,
              result_outputs = [(''pptx'', ''in/deck_translations/fr/deck_fr.pptx'')]\<rparr>)],
           summary_errors = [''es: Permission denied'', ''es: Permission denied'']\<rparr>"
  by (simp add: test_env_run)

text \<open>
  Claim C5 (amended): when the orchestrator reaches the language loop it returns a
  summary whose translations map has at most one entry per distinct language, namely
  exactly one for every language whose processing raises no exception, in the order of
  their first occurrence in the trimmed, non-blank language list; for \<open>es, es, fr\<close>
  with no failure these are the two entries \<open>es\<close> then \<open>fr\<close>.
\<close>

theorem orchestrator_keys:
  assumes inp: "str_path ip \<in> set (fs_files w)"
    and langs: "valid_languages tls \<noteq> []"
    and nf: "normalize_formats formats = Inr nf"
    and lo: "''pdf'' \<in> set nf \<longrightarrow> \<not> converter_unavailable ev w"
    and rd: "mkdir_error ev (output_root_dir oroot ip) = None"
  shows "\<exists>sm w'. translate_pptx_multi ev ip tls service key formats oroot zip_output w = (Inr sm, w')
     \<and> map fst (summary_translations sm)
         = dedup_first (filter (\<lambda>l. language_exception ev ip (output_root_dir oroot ip) service
                                      (auto_load_key (env_providers ev) service key) l = None)
                          (valid_languages tls))
     \<and> distinct (map fst (summary_translations sm))"
proof -
  obtain sm w' w2 where r: "translate_pptx_multi ev ip tls service key formats oroot zip_output w = (Inr sm, w')"
    and i2: "str_path ip \<in> set (fs_files w2)"
    and t: "summary_translations sm
          = fst (process_languages ev ip (output_root_dir oroot ip) nf service
                   (auto_load_key (env_providers ev) service key) (valid_languages tls) ([], [], w2))"
    using translate_pptx_multi_returns [OF inp langs nf lo rd] by blast
  have k: "map fst (summary_translations sm)
         = dedup_first (filter (\<lambda>l. language_exception ev ip (output_root_dir oroot ip) service
                                      (auto_load_key (env_providers ev) service key) l = None)
                          (valid_languages tls))"
    unfolding t using process_languages_keys [OF i2, where tr = "[]"] by simp
  show ?thesis using r k by (simp add: distinct_dedup_first)
qed


theorem orchestrator_keys_witness:
  "str_path input_deck \<in> set (fs_files world0)
   \<and> valid_languages [''es'', ''es'', ''fr''] \<noteq> []
   \<and> normalize_formats None = Inr [''pptx'']
   \<and> ''pdf'' \<notin> set [''pptx'']
   \<and> mkdir_error ok_env (output_root_dir None input_deck) = None
   \<and> (\<exists>sm w'. translate_pptx_multi ok_env input_deck [''es'', ''es'', ''fr''] ''google'' None None
                  None True world0 = (Inr sm, w')
          \<and> map fst (summary_translations sm) = [''es'', ''fr'']
          \<and> distinct (map fst (summary_translations sm)))"
proof -
  have l: "valid_languages [''es'', ''es'', ''fr''] \<noteq> []" by (simp add: valid_es_es_fr)
  have p: "''pdf'' \<in> set [''pptx''] \<longrightarrow> \<not> converter_unavailable ok_env world0" by simp
  have m: "mkdir_error ok_env (output_root_dir None input_deck) = None"
    by (simp add: ok_env_def)
  from orchestrator_keys [OF inp_deck l normalize_None p m, of "''google''" None True]
    inp_deck l normalize_None p m
  show ?thesis by (simp add: ok_env_any valid_es_es_fr)
qed

text \<open>
  Claim C7: if a requested format normalizes to \<open>pdf\<close> and the converter is not
  available, the orchestrator raises, and no directory is created and no file is written:
  neither the output root nor the directory of any language exists afterwards unless it
  existed before. When the input exists, a language is given and the formats are valid,
  the exception is the one of the missing converter.
\<close>

theorem fail_fast_without_converter:
  assumes pdf: "''pdf'' \<in> clean_format ` set (requested_formats formats)"
    and un: "converter_unavailable ev w"
  shows "\<exists>e w'. translate_pptx_multi ev ip tls service key formats oroot zip_output w = (Inl e, w')
           \<and> fs_dirs w' = fs_dirs w \<and> fs_files w' = fs_files w
           \<and> (str_path ip \<in> set (fs_files w) \<and> valid_languages tls \<noteq> []
                \<and> \<not> isl (normalize_formats formats) \<longrightarrow> e = LibreOfficeNotFound)"
proof (cases "str_path ip \<in> set (fs_files w) \<and> valid_languages tls \<noteq> []")
  case False
  then show ?thesis by (auto simp add: translate_pptx_multi_def Let_def)
next
  case True
  show ?thesis
  proof (cases "normalize_formats formats")
    case (Inl e)
    then show ?thesis using True by (simp add: translate_pptx_multi_def Let_def)
  next
    case (Inr nf)
    have p: "''pdf'' \<in> set nf" using normalize_formats_pdf [OF Inr pdf] .
    obtain r w1 where e: "ensure_libreoffice_available ev w = (r, w1)"
      by (cases "ensure_libreoffice_available ev w") auto
    have r: "r = Some LibreOfficeNotFound" using ensure_unavailable [of ev w] un e by simp
    have d: "fs_dirs w1 = fs_dirs w" using ensure_dirs [of ev w] e by simp
    have f: "fs_files w1 = fs_files w" using fs_files_ensure [of ev w] e by simp
    have "translate_pptx_multi ev ip tls service key formats oroot zip_output w
            = (Inl LibreOfficeNotFound, w1)"
      using True Inr p e r by (simp add: translate_pptx_multi_def Let_def)
    then show ?thesis using d f by simp
  qed
qed


theorem fail_fast_without_converter_witness:
  "''pdf'' \<in> clean_format ` set (requested_formats (Some [''.PDF'']))
   \<and> converter_unavailable test_env world0
   \<and> str_path input_deck \<in> set (fs_files world0)
   \<and> valid_languages [''es'', ''fr''] \<noteq> []
   \<and> \<not> isl (normalize_formats (Some [''.PDF'']))
   \<and> (\<exists>w'. translate_pptx_multi test_env input_deck [''es'', ''fr''] ''google'' None
                (Some [''.PDF'']) None True world0 = (Inl LibreOfficeNotFound, w')
          \<and> fs_dirs w' = fs_dirs world0 \<and> fs_files w' = fs_files world0)"
proof -
  have a: "''pdf'' \<in> clean_format ` set (requested_formats (Some [''.PDF'']))"
    by (simp add: requested_formats_def clean_dot_PDF)
  have b: "converter_unavailable test_env world0"
    by (simp add: converter_unavailable_def world0_def test_env_def)
  have l: "valid_languages [''es'', ''fr''] \<noteq> []" by (simp add: valid_es_fr)
  have n: "\<not> isl (normalize_formats (Some [''.PDF'']))" by (simp add: normalize_dot_PDF)
  from fail_fast_without_converter [OF a b, of input_deck "[''es'', ''fr'']" "''google''" None None True]
    a b inp_deck l n
  show ?thesis by auto
qed

text \<open>
  Claim C8: once the orchestrator has reached the language loop, a language whose
  processing raises an exception has the error string \<open>language: message\<close> in the
  error list of the summary, the orchestrator still returns that summary, and every
  language of the list whose processing raises nothing has its entry in the translations
  map: the loop went on past the failure.
\<close>

theorem orchestrator_catches:
  assumes inp: "str_path ip \<in> set (fs_files w)"
    and langs: "valid_languages tls \<noteq> []"
    and nf: "normalize_formats formats = Inr nf"
    and lo: "''pdf'' \<in> set nf \<longrightarrow> \<not> converter_unavailable ev w"
    and rd: "mkdir_error ev (output_root_dir oroot ip) = None"
    and l: "l \<in> set (valid_languages tls)"
    and exc: "language_exception ev ip (output_root_dir oroot ip) service
                (auto_load_key (env_providers ev) service key) l = Some e"
  shows "\<exists>sm w'. translate_pptx_multi ev ip tls service key formats oroot zip_output w = (Inr sm, w')
     \<and> l @ '': '' @ str_exn e \<in> set (summary_errors sm)
     \<and> (\<forall>l' \<in> set (valid_languages tls).
           language_exception ev ip (output_root_dir oroot ip) service
             (auto_load_key (env_providers ev) service key) l' = None
           \<longrightarrow> l' \<in> fst ` set (summary_translations sm))"
proof -
  let ?rd = "output_root_dir oroot ip"
  let ?key = "auto_load_key (env_providers ev) service key"
  obtain sm w' w2 where r: "translate_pptx_multi ev ip tls service key formats oroot zip_output w = (Inr sm, w')"
    and i2: "str_path ip \<in> set (fs_files w2)"
    and t: "summary_translations sm
          = fst (process_languages ev ip ?rd nf service ?key (valid_languages tls) ([], [], w2))"
    and er: "set (fst (snd (process_languages ev ip ?rd nf service ?key (valid_languages tls)
                              ([], [], w2)))) \<subseteq> set (summary_errors sm)"
    using translate_pptx_multi_returns [OF inp langs nf lo rd] by blast
  have e1: "l @ '': '' @ str_exn e \<in> set (summary_errors sm)"
    using process_languages_error_recorded [OF i2 l exc, where nf = nf and tr = "[]" and er = "[]"] er
    by blast
  have "map fst (summary_translations sm)
         = dedup_first (filter (\<lambda>l. language_exception ev ip ?rd service ?key l = None)
                          (valid_languages tls))"
    unfolding t using process_languages_keys [OF i2, where tr = "[]"] by simp
  then have "set (map fst (summary_translations sm))
         = {l' \<in> set (valid_languages tls). language_exception ev ip ?rd service ?key l' = None}"
    by (simp add: set_dedup_first)
  then have e2: "\<forall>l' \<in> set (valid_languages tls).
           language_exception ev ip ?rd service ?key l' = None
           \<longrightarrow> l' \<in> fst ` set (summary_translations sm)"
    by auto
  show ?thesis using r e1 e2 by blast
qed

theorem orchestrator_catches_witness:
  "str_path input_deck \<in> set (fs_files world0)
   \<and> valid_languages [''es'', ''fr''] \<noteq> []
   \<and> normalize_formats None = Inr [''pptx'']
   \<and> ''pdf'' \<notin> set [''pptx'']
   \<and> mkdir_error test_env (output_root_dir None input_deck) = None
   \<and> ''es'' \<in> set (valid_languages [''es'', ''fr''])
   \<and> language_exception test_env input_deck (output_root_dir None input_deck) ''google''
        (auto_load_key (env_providers test_env) ''google'' None) ''es''
        = Some (Raised ''Permission denied'')
   \<and> (\<exists>sm w'. translate_pptx_multi test_env input_deck [''es'', ''fr''] ''google'' None None None
                  True world0 = (Inr sm, w')
          \<and> ''es: Permission denied'' \<in> set (summary_errors sm)
          \<and> ''fr'' \<in> fst ` set (summary_translations sm))"
proof -
  have l: "valid_languages [''es'', ''fr''] \<noteq> []" by (simp add: valid_es_fr)
  have p: "''pdf'' \<in> set [''pptx''] \<longrightarrow> \<not> converter_unavailable test_env world0" by simp
  have m: "mkdir_error test_env (output_root_dir None input_deck) = None"
    by (simp add: root_deck) (simp add: test_env_def)
  have i: "''es'' \<in> set (valid_languages [''es'', ''fr''])" by (simp add: valid_es_fr)
  have x: "language_exception test_env input_deck (output_root_dir None input_deck) ''google''
        (auto_load_key (env_providers test_env) ''google'' None) ''es''
        = Some (Raised ''Permission denied'')"
    by (simp add: root_deck test_env_es)
  from orchestrator_catches [OF inp_deck l normalize_None p m i x, of True]
    inp_deck l normalize_None p m i x
  show ?thesis by (auto simp add: valid_es_fr root_deck test_env_fr)
qed

text \<open>
  Claim C10: for every language whose loop body completes without an exception, if
  \<open>pptx\<close> is among the normalized formats, the entry of the language in the summary maps
  \<open>pptx\<close> to the target path \<open>{root}/{language}/{stem}_{language}.pptx\<close>, whatever the
  translation step returned. When the document cannot be loaded the count of the entry is
  zero and the file at that path, absent before, is still absent afterwards.
\<close>

theorem pptx_path_reported:
  assumes inp: "str_path ip \<in> set (fs_files w)"
    and langs: "valid_languages tls \<noteq> []"
    and nf: "normalize_formats formats = Inr nf"
    and lo: "''pdf'' \<in> set nf \<longrightarrow> \<not> converter_unavailable ev w"
    and rd: "mkdir_error ev (output_root_dir oroot ip) = None"
    and l: "l \<in> set (valid_languages tls)"
    and exc: "language_exception ev ip (output_root_dir oroot ip) service
                (auto_load_key (env_providers ev) service key) l = None"
    and pptx: "''pptx'' \<in> set nf"
  shows "\<exists>sm w' r. translate_pptx_multi ev ip tls service key formats oroot zip_output w = (Inr sm, w')
     \<and> map_of (summary_translations sm) l = Some r
     \<and> map_of (result_outputs r) ''pptx''
           = Some (str_path (pptx_path_of ip (output_root_dir oroot ip) l))
     \<and> (isl (load_presentation ev (str_path ip)) \<longrightarrow>
           result_count r = 0
           \<and> (str_path (pptx_path_of ip (output_root_dir oroot ip) l) \<notin> set (fs_files w)
                \<longrightarrow> str_path (pptx_path_of ip (output_root_dir oroot ip) l) \<notin> set (fs_files w')))"
proof -
  let ?rd = "output_root_dir oroot ip"
  let ?key = "auto_load_key (env_providers ev) service key"
  let ?pp = "str_path (pptx_path_of ip ?rd l)"
  obtain sm w' w2 where r: "translate_pptx_multi ev ip tls service key formats oroot zip_output w = (Inr sm, w')"
    and i2: "str_path ip \<in> set (fs_files w2)"
    and t: "summary_translations sm
          = fst (process_languages ev ip ?rd nf service ?key (valid_languages tls) ([], [], w2))"
    and f2: "fs_files w2 = fs_files w"
    and fz: "set (fs_files w') \<subseteq> insert (?rd @ ''.zip'')
           (set (fs_files (snd (snd (process_languages ev ip ?rd nf service ?key
                   (valid_languages tls) ([], [], w2))))))"
    using translate_pptx_multi_returns [OF inp langs nf lo rd] by blast
  obtain r where e: "map_of (summary_translations sm) l = Some r"
    and o: "map_of (result_outputs r) ''pptx'' = Some ?pp"
    and c: "isl (load_presentation ev (str_path ip)) \<longrightarrow> result_count r = 0"
    unfolding t
    using process_languages_entry [OF i2 exc, where langs = "valid_languages tls" and tr = "[]"
        and nf = nf and er = "[]"] l pptx
    by auto
  have z: "?rd @ ''.zip'' \<noteq> ?pp"
    by (simp add: str_path_def pptx_path_of_def join_def)
  have f: "isl (load_presentation ev (str_path ip)) \<longrightarrow> ?pp \<notin> set (fs_files w)
             \<longrightarrow> ?pp \<notin> set (fs_files w')"
  proof (intro impI)
    assume a: "isl (load_presentation ev (str_path ip))" and b: "?pp \<notin> set (fs_files w)"
    have "fs_files (snd (snd (process_languages ev ip ?rd nf service ?key
                   (valid_languages tls) ([], [], w2)))) = fs_files w"
      using process_languages_files [OF a, of ?rd nf service ?key "valid_languages tls" "[]" "[]" w2] f2
      by simp
    then show "?pp \<notin> set (fs_files w')" using fz b z by auto
  qed
  show ?thesis using r e o c f by blast
qed

theorem pptx_path_reported_witness:
  "str_path input_deck \<in> set (fs_files world0)
   \<and> valid_languages [''es'', ''fr''] \<noteq> []
   \<and> normalize_formats None = Inr [''pptx'']
   \<and> ''pdf'' \<notin> set [''pptx'']
   \<and> mkdir_error test_env (output_root_dir None input_deck) = None
   \<and> ''fr'' \<in> set (valid_languages [''es'', ''fr''])
   \<and> language_exception test_env input_deck (output_root_dir None input_deck) ''google''
        (auto_load_key (env_providers test_env) ''google'' None) ''fr'' = None
   \<and> ''pptx'' \<in> set [''pptx'']
   \<and> isl (load_presentation test_env (str_path input_deck))
   \<and> ''in/deck_translations/fr/deck_fr.pptx'' \<notin> set (fs_files world0)
   \<and> (\<exists>sm w' r. translate_pptx_multi test_env input_deck [''es'', ''fr''] ''google'' None None None
                  True world0 = (Inr sm, w')
          \<and> map_of (summary_translations sm) ''fr'' = Some r
          \<and> map_of (result_outputs r) ''pptx'' = Some ''in/deck_translations/fr/deck_fr.pptx''
          \<and> result_count r = 0
          \<and> ''in/deck_translations/fr/deck_fr.pptx'' \<notin> set (fs_files w'))"
proof -
  have l: "valid_languages [''es'', ''fr''] \<noteq> []" by (simp add: valid_es_fr)
  have p: "''pdf'' \<in> set [''pptx''] \<longrightarrow> \<not> converter_unavailable test_env world0" by simp
  have m: "mkdir_error test_env (output_root_dir None input_deck) = None"
    by (simp add: root_deck) (simp add: test_env_def)
  have i: "''fr'' \<in> set (valid_languages [''es'', ''fr''])" by (simp add: valid_es_fr)
  have x: "language_exception test_env input_deck (output_root_dir None input_deck) ''google''
        (auto_load_key (env_providers test_env) ''google'' None) ''fr'' = None"
    by (simp add: root_deck test_env_fr)
  have q: "''pptx'' \<in> set [''pptx'']" by simp
  have ld: "isl (load_presentation test_env (str_path input_deck))" by (simp add: test_env_def)
  have nw: "''in/deck_translations/fr/deck_fr.pptx'' \<notin> set (fs_files world0)"
    by (simp add: world0_def)
  from pptx_path_reported [OF inp_deck l normalize_None p m i x q, of True]
    inp_deck l normalize_None p m i x q ld nw
  show ?thesis by (simp add: root_deck pptx_path_fr)
qed

end
